theory Spec2Isabelle
  imports Main
begin

section \<open>JavaScript values and errors\<close>

text \<open>
  The server is a JavaScript class, \<open>ShovMCPServer\<close>. Its methods work on strings, on
  values that came out of \<open>JSON.parse\<close> (tool arguments, streamed events), and on the
  exceptions they throw. A string is modelled as a \<open>string\<close>, one \<open>char\<close> for one
  code unit, which covers the code units below 256. A thrown exception is a value of
  \<open>error\<close>, carrying the \<open>message\<close> the handlers read.
\<close>

datatype error =
  Error (message: string)
| TypeError (message: string)
| SyntaxError (message: string)

text \<open>
  A JSON value. The number type \<open>'n\<close> is the platform's (an IEEE double in the
  engine); an object is the list of its entries, as \<open>Object.entries\<close> gives them. The
  value \<open>undefined\<close>, which a missing property reads as, is \<open>None\<close> of \<open>'n json option\<close>.
\<close>

datatype 'n json =
  JNull
| JBool bool
| JNum 'n
| JStr string
| JArr "'n json list"
| JObj "(string \<times> 'n json) list"

type_synonym 'n obj = "(string \<times> 'n json) list"

text \<open>
  What \<open>callTool\<close> returns: the parsed body of a JSON response, the text of any other
  response, or the object \<open>handleSSEStream\<close> builds, which has one of three shapes:
  \<open>{type: 'stream', content, events, eventCount}\<close>, \<open>{type: 'stream', events, eventCount}\<close>
  and \<open>{type: 'stream', message, events: []}\<close>.
\<close>

datatype 'n stream_result =
  StreamText string "'n json list" nat
| StreamEvents "'n json list" nat
| StreamEmpty string "'n json list"

datatype 'n result = Value "'n json" | Text string | Stream "'n stream_result"

text \<open>
  What the code takes from the platform and not from this repository: \<open>JSON.parse\<close>,
  \<open>JSON.stringify\<close> (of the request body, and with an indentation of the result), the
  conversions of a number to a boolean and to a string, and the \<open>TextDecoder\<close>, which
  in streaming mode is a machine stepping over the bytes with a state \<open>'d\<close> of its own
  (the bytes of an unfinished sequence). The constructor of \<open>URLSearchParams\<close> is the
  platform's too. What it does with an ordinary object, a record of names and values, is
  written out below; given an object that inherits from an array it finds the iterator
  of arrays and reads the object as a sequence of pairs, and then
  \<open>URLSearchParams_sequence\<close> is the string of the result or the exception, for the own
  entries of the object and the elements of the array.
\<close>

record ('n, 'd) platform =
  JSON_parse :: "string \<Rightarrow> error + 'n json"
  JSON_stringify :: "'n json \<Rightarrow> string"
  JSON_stringify_indented :: "'n result \<Rightarrow> string"
  num_is_zero :: "'n \<Rightarrow> bool"
  num_to_string :: "'n \<Rightarrow> string"
  decoder_init :: 'd
  decoder_step :: "'d \<Rightarrow> char \<Rightarrow> string \<times> 'd"
  URLSearchParams_sequence :: "'n obj \<Rightarrow> 'n json list \<Rightarrow> error + string"

subsection \<open>Truthiness, property reads, conversion to a string\<close>

fun truthy :: "('n, 'd) platform \<Rightarrow> 'n json option \<Rightarrow> bool" where
  "truthy P None = False"
| "truthy P (Some JNull) = False"
| "truthy P (Some (JBool b)) = b"
| "truthy P (Some (JNum n)) = (\<not> num_is_zero P n)"
| "truthy P (Some (JStr s)) = (s \<noteq> [])"
| "truthy P (Some (JArr xs)) = True"
| "truthy P (Some (JObj kvs)) = True"

definition js_or :: "('n, 'd) platform \<Rightarrow> 'n json option \<Rightarrow> 'n json option \<Rightarrow> 'n json option" where
  \<comment> \<open>\<open>a || b\<close>\<close>
  "js_or P a b = (if truthy P a then a else b)"

fun get_prop :: "'n json \<Rightarrow> string \<Rightarrow> error + 'n json option" where
  \<comment> \<open>\<open>v.name\<close> for one of the names the code reads (\<open>type\<close>, \<open>content\<close>, \<open>text\<close>,
     \<open>message\<close>, \<open>status\<close>, \<open>error\<close>): an own property of an object, absent on the
     prototypes; reading it from \<open>null\<close> throws.\<close>
  "get_prop JNull k = Inl (TypeError (''Cannot read properties of null (reading '' @ [CHR 0x27] @ k @ [CHR 0x27] @ '')''))"
| "get_prop (JObj kvs) k = Inr (map_of kvs k)"
| "get_prop v k = Inr None"

fun join :: "string \<Rightarrow> string list \<Rightarrow> string" where
  "join sep [] = []"
| "join sep [x] = x"
| "join sep (x # y # ys) = x @ sep @ join sep (y # ys)"

fun throws_ToString :: "'n json \<Rightarrow> bool" where
  \<comment> \<open>An object parsed from JSON converts through \<open>Object.prototype.toString\<close> unless an
     own property \<open>toString\<close> (never callable, being JSON) hides it; an array joins the
     conversions of its elements.\<close>
  "throws_ToString (JObj kvs) = (map_of kvs ''toString'' \<noteq> None)"
| "throws_ToString (JArr xs) = list_ex throws_ToString xs"
| "throws_ToString v = False"

fun to_string :: "('n, 'd) platform \<Rightarrow> 'n json \<Rightarrow> string" where
  "to_string P JNull = ''null''"
| "to_string P (JBool b) = (if b then ''true'' else ''false'')"
| "to_string P (JNum n) = num_to_string P n"
| "to_string P (JStr s) = s"
| "to_string P (JArr xs) = join '','' (map (\<lambda>x. if x = JNull then [] else to_string P x) xs)"
| "to_string P (JObj kvs) = ''[object Object]''"

definition ToString :: "('n, 'd) platform \<Rightarrow> 'n json option \<Rightarrow> error + string" where
  "ToString P v =
     (case v of
        None \<Rightarrow> Inr ''undefined''
      | Some x \<Rightarrow>
          if throws_ToString x then Inl (TypeError ''Cannot convert object to primitive value'')
          else Inr (to_string P x))"

subsection \<open>String methods\<close>

definition startsWith :: "string \<Rightarrow> string \<Rightarrow> bool" where
  \<comment> \<open>\<open>s.startsWith(p)\<close>\<close>
  "startsWith p s = (take (length p) s = p)"

fun str_includes :: "string \<Rightarrow> string \<Rightarrow> bool" where
  \<comment> \<open>\<open>s.includes(sub)\<close>\<close>
  "str_includes sub [] = (sub = [])"
| "str_includes sub (c # cs) = (startsWith sub (c # cs) \<or> str_includes sub cs)"

fun str_replace :: "string \<Rightarrow> string \<Rightarrow> string \<Rightarrow> string" where
  \<comment> \<open>\<open>s.replace(pat, rep)\<close> with a string pattern: the first occurrence only. The
     replacement is taken as it is; the code passes only percent-encoded text, which has
     no \<open>$\<close> for a replacement pattern.\<close>
  "str_replace pat rep [] = (if pat = [] then rep else [])"
| "str_replace pat rep (c # cs) =
     (if startsWith pat (c # cs) then rep @ drop (length pat) (c # cs)
      else c # str_replace pat rep cs)"

definition hex_digit :: "nat \<Rightarrow> char" where
  "hex_digit n = (if n < 10 then char_of (48 + n) else char_of (55 + n))"

definition percent :: "nat \<Rightarrow> string" where
  "percent b = [CHR ''%'', hex_digit (b div 16), hex_digit (b mod 16)]"

definition utf8_bytes :: "char \<Rightarrow> nat list" where
  \<comment> \<open>the UTF-8 bytes of a code unit below 256\<close>
  "utf8_bytes c =
     (let n = (of_char c :: nat) in if n < 128 then [n] else [192 + n div 64, 128 + n mod 64])"

definition alnum :: "char \<Rightarrow> bool" where
  "alnum c =
     (let n = (of_char c :: nat)
      in (48 \<le> n \<and> n \<le> 57) \<or> (65 \<le> n \<and> n \<le> 90) \<or> (97 \<le> n \<and> n \<le> 122))"

definition uri_unreserved :: "char \<Rightarrow> bool" where
  "uri_unreserved c = (alnum c \<or> c \<in> set ''-_.!~*()'' \<or> c = CHR 0x27)"

definition encodeURIComponent_str :: "string \<Rightarrow> string" where
  "encodeURIComponent_str s =
     concat (map (\<lambda>c. if uri_unreserved c then [c] else concat (map percent (utf8_bytes c))) s)"

definition encodeURIComponent :: "('n, 'd) platform \<Rightarrow> 'n json \<Rightarrow> error + string" where
  \<comment> \<open>\<open>encodeURIComponent(value)\<close> converts its argument to a string first.\<close>
  "encodeURIComponent P v =
     (case ToString P (Some v) of Inl e \<Rightarrow> Inl e | Inr s \<Rightarrow> Inr (encodeURIComponent_str s))"

section \<open>callTool: separating the parameters\<close>

text \<open>
  \<^verbatim>\<open>
  for (const [key, value] of Object.entries(args)) {
    if (requestUrl.includes(`{${key}}`)) {
      pathParams[key] = value;
      requestUrl = requestUrl.replace(`{${key}}`, encodeURIComponent(value));
    } else if (method === 'GET' || method === 'DELETE') {
      queryParams[key] = value;
    } else {
      bodyParams[key] = value;
    }
  }
  \<close>
  The loop runs over the entries of \<open>args\<close> and updates four locals, the URL and three
  objects, here the fields of \<open>params\<close>. An exception of \<open>encodeURIComponent\<close> leaves
  the loop and \<open>callTool\<close>.
\<close>

fun obj_define :: "'n obj \<Rightarrow> string \<Rightarrow> 'n json \<Rightarrow> 'n obj" where
  \<comment> \<open>an own property \<open>key\<close> with the value: a new key goes last, a key already there
     keeps its place. The entries of \<open>args\<close> come in the order of \<open>Object.entries\<close>,
     which the three objects then have as well.\<close>
  "obj_define [] k v = [(k, v)]"
| "obj_define ((k', v') # kvs) k v =
     (if k' = k then (k, v) # kvs else (k', v') # obj_define kvs k v)"

definition obj_set :: "'n obj \<Rightarrow> string \<Rightarrow> 'n json \<Rightarrow> 'n obj" where
  \<comment> \<open>\<open>o[key] = value\<close> on an object made by \<open>{}\<close>. For the key \<open>__proto__\<close> the
     assignment runs the setter of \<open>Object.prototype\<close>, which creates no own
     property and replaces the prototype, see \<open>proto_set\<close>. For every other key it
     defines the property, whatever the prototype is by then: JSON values bring neither
     setters nor read-only properties.\<close>
  "obj_set ob k v = (if k = ''__proto__'' then ob else obj_define ob k v)"

definition keys :: "'n obj \<Rightarrow> string set" where
  \<comment> \<open>the set of \<open>Object.keys(o)\<close>\<close>
  "keys ob = fst ` set ob"

definition proto_set :: "'n json option \<Rightarrow> string \<Rightarrow> 'n json \<Rightarrow> 'n json option" where
  \<comment> \<open>what \<open>o[key] = value\<close> does to the prototype of \<open>o\<close>, \<open>None\<close> being
     \<open>Object.prototype\<close>: the setter of \<open>__proto__\<close> installs an object, an array or
     \<open>null\<close>, and ignores every other value\<close>
  "proto_set pr k v =
     (if k = ''__proto__'' then
        (case v of JObj kvs \<Rightarrow> Some v | JArr xs \<Rightarrow> Some v | JNull \<Rightarrow> Some v | _ \<Rightarrow> pr)
      else pr)"

text \<open>
  The locals of the loop. Of the three objects the own properties are kept, and of
  \<open>queryParams\<close> the prototype as well, which \<open>new URLSearchParams(queryParams)\<close>
  looks at. The prototypes of the other two are never read: \<open>pathParams\<close> is not read
  at all, \<open>bodyParams\<close> by \<open>Object.keys\<close> and \<open>JSON.stringify\<close>, which take the own
  properties.
\<close>

record 'n params =
  requestUrl :: string
  pathParams :: "'n obj"
  queryParams :: "'n obj"
  bodyParams :: "'n obj"
  queryPrototype :: "'n json option"

definition placeholder :: "string \<Rightarrow> string" where
  "placeholder key = ''{'' @ key @ ''}''"

definition separate_param ::
  "('n, 'd) platform \<Rightarrow> string \<Rightarrow> 'n params \<Rightarrow> string \<times> 'n json \<Rightarrow> error + 'n params" where
  "separate_param P method ps kv =
     (case kv of (key, value) \<Rightarrow>
        if str_includes (placeholder key) (requestUrl ps) then
          (case encodeURIComponent P value of
             Inl e \<Rightarrow> Inl e
           | Inr enc \<Rightarrow>
               Inr (ps\<lparr>pathParams := obj_set (pathParams ps) key value,
                        requestUrl := str_replace (placeholder key) enc (requestUrl ps)\<rparr>))
        else if method = ''GET'' \<or> method = ''DELETE'' then
          Inr (ps\<lparr>queryParams := obj_set (queryParams ps) key value,
                   queryPrototype := proto_set (queryPrototype ps) key value\<rparr>)
        else
          Inr (ps\<lparr>bodyParams := obj_set (bodyParams ps) key value\<rparr>))"

fun separate_params ::
  "('n, 'd) platform \<Rightarrow> string \<Rightarrow> 'n params \<Rightarrow> 'n obj \<Rightarrow> error + 'n params" where
  "separate_params P method ps [] = Inr ps"
| "separate_params P method ps (kv # kvs) =
     (case separate_param P method ps kv of
        Inl e \<Rightarrow> Inl e
      | Inr ps' \<Rightarrow> separate_params P method ps' kvs)"

definition classify :: "('n, 'd) platform \<Rightarrow> string \<Rightarrow> string \<Rightarrow> 'n obj \<Rightarrow> error + 'n params" where
  "classify P url method args =
     separate_params P method
       \<lparr>requestUrl = url, pathParams = [], queryParams = [], bodyParams = [],
        queryPrototype = None\<rparr> args"

definition stored :: "'n obj \<Rightarrow> 'n obj" where
  \<comment> \<open>the entries an assignment stores: all but the one of \<open>__proto__\<close>\<close>
  "stored args = filter (\<lambda>kv. fst kv \<noteq> ''__proto__'') args"

definition partitioned :: "'n params \<Rightarrow> 'n obj \<Rightarrow> bool" where
  \<comment> \<open>the three objects hold the stored entries of \<open>args\<close>, every key once\<close>
  "partitioned ps args \<longleftrightarrow>
     distinct (map fst (pathParams ps @ queryParams ps @ bodyParams ps))
     \<and> set (pathParams ps) \<union> set (queryParams ps) \<union> set (bodyParams ps) = set (stored args)"

definition brace_free :: "string \<Rightarrow> bool" where
  "brace_free k \<longleftrightarrow> CHR ''{'' \<notin> set k \<and> CHR ''}'' \<notin> set k"

section \<open>handleSSEStream\<close>

text \<open>
  The reader of the response body is the sequence of what its \<open>read()\<close> calls settle
  to: \<open>rd i\<close> is the outcome of call number \<open>i\<close>, a chunk of bytes, the end of the
  stream, or a rejection. The \<open>while (true)\<close> loop returns only when the reader ends or
  fails, so the loop is a partial function and a stream that never ends is \<open>None\<close>.
\<close>

datatype read = Chunk string | Done | Failed error

record ('n, 'd) sse =
  decoder :: 'd
  buffer :: string
  events :: "'n json list"
  streamedText :: string

fun decode :: "('n, 'd) platform \<Rightarrow> 'd \<Rightarrow> string \<Rightarrow> string \<times> 'd" where
  \<comment> \<open>\<open>decoder.decode(value, { stream: true })\<close>: the text the bytes complete, and the
     decoder after them\<close>
  "decode P d [] = ([], d)"
| "decode P d (b # bs) =
     (case decoder_step P d b of (out, d') \<Rightarrow>
        (case decode P d' bs of (outs, d'') \<Rightarrow> (out @ outs, d'')))"

fun str_split_nl :: "string \<Rightarrow> string list" where
  \<comment> \<open>\<open>s.split('\n')\<close>: one more piece than there are newlines\<close>
  "str_split_nl [] = [[]]"
| "str_split_nl (c # cs) =
     (if c = CHR 0x0A then [] # str_split_nl cs
      else (case str_split_nl cs of [] \<Rightarrow> [[c]] | l # ls \<Rightarrow> (c # l) # ls))"

definition text_event :: "string \<Rightarrow> 'n json" where
  \<comment> \<open>\<open>{ type: 'text', content: data }\<close>\<close>
  "text_event data = JObj [(''type'', JStr ''text''), (''content'', JStr data)]"

definition field :: "'n json \<Rightarrow> string \<Rightarrow> 'n json option" where
  \<comment> \<open>a property of a value already read from without an exception\<close>
  "field v k = (case get_prop v k of Inl e \<Rightarrow> None | Inr x \<Rightarrow> x)"

definition note_event :: "('n, 'd) platform \<Rightarrow> 'n json \<Rightarrow> error + string" where
  \<comment> \<open>The \<open>try\<close> block after \<open>events.push(parsed)\<close>: the text it adds to \<open>streamedText\<close>,
     or the exception it throws. The two logging branches build their line from a
     property, which converts it to a string; what they print is not modelled.\<close>
  "note_event P parsed =
     (case get_prop parsed ''type'' of
        Inl e \<Rightarrow> Inl e
      | Inr ty \<Rightarrow>
          if ty = Some (JStr ''chunk'') \<or> ty = Some (JStr ''delta'') then
            ToString P (js_or P (field parsed ''content'')
                          (js_or P (field parsed ''text'') (Some (JStr []))))
          else if ty = Some (JStr ''progress'') then
            (case ToString P (js_or P (field parsed ''message'') (field parsed ''status'')) of
               Inl e \<Rightarrow> Inl e | Inr s \<Rightarrow> Inr [])
          else if ty = Some (JStr ''error'') then
            (case ToString P (js_or P (field parsed ''error'') (field parsed ''message'')) of
               Inl e \<Rightarrow> Inl e | Inr s \<Rightarrow> Inr [])
          else Inr [])"

definition process_line ::
  "('n, 'd) platform \<Rightarrow> 'n json list \<times> string \<Rightarrow> string \<Rightarrow> 'n json list \<times> string" where
  \<comment> \<open>the body of \<open>for (const line of lines)\<close>, on \<open>events\<close> and \<open>streamedText\<close>\<close>
  "process_line P acc line =
     (case acc of (evs, txt) \<Rightarrow>
        if startsWith ''data: '' line then
          (let data = drop 6 line in
           if data = ''[DONE]'' then (evs, txt)
           else
             (case JSON_parse P data of
                Inl e \<Rightarrow> (evs @ [text_event data], txt @ data)
              | Inr parsed \<Rightarrow>
                  (case note_event P parsed of
                     Inl e \<Rightarrow> (evs @ [parsed] @ [text_event data], txt @ data)
                   | Inr s \<Rightarrow> (evs @ [parsed], txt @ s))))
        else (evs, txt))"

definition on_chunk :: "('n, 'd) platform \<Rightarrow> ('n, 'd) sse \<Rightarrow> string \<Rightarrow> ('n, 'd) sse" where
  \<comment> \<open>one pass of the loop body, for a read that delivered \<open>value\<close>\<close>
  "on_chunk P st value =
     (case decode P (decoder st) value of (decoded, d') \<Rightarrow>
        (let lines = str_split_nl (buffer st @ decoded) in
         (case foldl (process_line P) (events st, streamedText st) (butlast lines) of
            (evs, txt) \<Rightarrow>
              \<lparr>decoder = d', buffer = (if lines = [] then [] else last lines),
               events = evs, streamedText = txt\<rparr>)))"

partial_function (option) read_loop ::
  "('n, 'd) platform \<Rightarrow> (nat \<Rightarrow> read) \<Rightarrow> nat \<Rightarrow> ('n, 'd) sse \<Rightarrow> (error + ('n, 'd) sse) option" where
  "read_loop P rd i st =
     (case rd i of
        Done \<Rightarrow> Some (Inr st)
      | Failed e \<Rightarrow> Some (Inl e)
      | Chunk v \<Rightarrow> read_loop P rd (Suc i) (on_chunk P st v))"

definition stream_result :: "('n, 'd) sse \<Rightarrow> 'n stream_result" where
  \<comment> \<open>the object returned after the loop\<close>
  "stream_result st =
     (if streamedText st \<noteq> [] then
        StreamText (streamedText st) (events st) (length (events st))
      else if length (events st) > 0 then
        StreamEvents (events st) (length (events st))
      else StreamEmpty ''Stream completed with no data'' [])"

definition sse_init :: "('n, 'd) platform \<Rightarrow> ('n, 'd) sse" where
  "sse_init P = \<lparr>decoder = decoder_init P, buffer = [], events = [], streamedText = []\<rparr>"

definition handleSSEStream ::
  "('n, 'd) platform \<Rightarrow> (nat \<Rightarrow> read) \<Rightarrow> (error + 'n stream_result) option" where
  "handleSSEStream P rd =
     (case read_loop P rd 0 (sse_init P) of
        None \<Rightarrow> None
      | Some (Inl e) \<Rightarrow> Some (Inl (Error (''SSE stream error: '' @ message e)))
      | Some (Inr st) \<Rightarrow> Some (Inr (stream_result st)))"

definition reader_of :: "string list \<Rightarrow> nat \<Rightarrow> read" where
  \<comment> \<open>the reader of a body that arrives in the given chunks and then ends\<close>
  "reader_of chunks i = (if i < length chunks then Chunk (chunks ! i) else Done)"

section \<open>callTool: the request and the response\<close>

text \<open>
  The network is outside the program: \<open>fetch\<close> is a function from the request to what its
  promise settles to, a rejection or a response. A response gives its status line, its
  content type (\<open>headers.get('content-type')\<close>, which may be \<open>null\<close>) and its body as each
  of the three accessors the code uses delivers it: \<open>text()\<close>, \<open>json()\<close>, which throws on
  a body that is not JSON, and \<open>body.getReader()\<close>. The type \<open>'j\<close> is what \<open>json()\<close> gives.
\<close>

record request =
  req_url :: string
  req_method :: string
  req_headers :: "(string \<times> string) list"
  req_body :: "string option"

record 'j response =
  ok :: bool
  status :: nat
  statusText :: string
  content_type :: "string option"
  body_text :: string
  body_json :: "error + 'j"
  body_reads :: "nat \<Rightarrow> read"

record handler =
  handler_method :: string
  handler_url :: string

record 'n tool =
  name :: string
  description :: "string option"
  inputSchema :: "'n json option"
  handler :: handler

fun decimal :: "nat \<Rightarrow> string" where
  \<comment> \<open>a status code inside a template literal\<close>
  "decimal n = (if n < 10 then [char_of (48 + n)] else decimal (n div 10) @ [char_of (48 + n mod 10)])"

definition form_encode :: "string \<Rightarrow> string" where
  \<comment> \<open>the \<open>application/x-www-form-urlencoded\<close> serialisation of a name or a value\<close>
  "form_encode s =
     concat (map (\<lambda>c. if c = CHR '' '' then ''+''
                       else if alnum c \<or> c \<in> set ''*-._'' then [c]
                       else concat (map percent (utf8_bytes c))) s)"

definition URLSearchParams_toString ::
  "('n, 'd) platform \<Rightarrow> 'n obj \<Rightarrow> 'n json option \<Rightarrow> error + string" where
  \<comment> \<open>\<open>new URLSearchParams(queryParams).toString()\<close> for the own entries of the object
     and its prototype: the constructor takes the names and values of the own entries and
     converts every value to a string, unless the object inherits the iterator of an
     array\<close>
  "URLSearchParams_toString P q pr =
     (case pr of
        Some (JArr xs) \<Rightarrow> URLSearchParams_sequence P q xs
      | _ \<Rightarrow>
          if list_ex (\<lambda>kv. throws_ToString (snd kv)) q
          then Inl (TypeError ''Cannot convert object to primitive value'')
          else Inr (join ''&'' (map (\<lambda>kv. form_encode (fst kv) @ ''='' @ form_encode (to_string P (snd kv))) q)))"

definition build_request ::
  "('n, 'd) platform \<Rightarrow> string \<Rightarrow> 'n tool \<Rightarrow> 'n obj \<Rightarrow> error + request" where
  \<comment> \<open>\<open>callTool\<close> up to the call of \<open>fetch\<close>: its two arguments\<close>
  "build_request P key tool args =
     (case classify P (handler_url (handler tool)) (handler_method (handler tool)) args of
        Inl e \<Rightarrow> Inl e
      | Inr ps \<Rightarrow>
          (case (if length (queryParams ps) > 0
                 then (case URLSearchParams_toString P (queryParams ps) (queryPrototype ps) of
                         Inl e \<Rightarrow> Inl e
                       | Inr s \<Rightarrow> Inr (requestUrl ps @ ''?'' @ s))
                 else Inr (requestUrl ps)) of
             Inl e \<Rightarrow> Inl e
           | Inr u \<Rightarrow>
               Inr \<lparr>req_url = u,
                    req_method = handler_method (handler tool),
                    req_headers =
                      [(''Authorization'', ''Bearer '' @ key),
                       (''Content-Type'', ''application/json''),
                       (''User-Agent'', ''shov-mcp/1.0.0''),
                       (''Accept'', ''application/json, text/event-stream'')],
                    req_body =
                      (if handler_method (handler tool) \<in> set [''POST'', ''PUT'', ''PATCH'']
                          \<and> length (bodyParams ps) > 0
                       then Some (JSON_stringify P (JObj (bodyParams ps)))
                       else None)\<rparr>))"

definition content_type_includes :: "string \<Rightarrow> 'j response \<Rightarrow> bool" where
  \<comment> \<open>\<open>contentType && contentType.includes(t)\<close>\<close>
  "content_type_includes t r =
     (case content_type r of None \<Rightarrow> False | Some ct \<Rightarrow> ct \<noteq> [] \<and> str_includes t ct)"

definition respond ::
  "('n, 'd) platform \<Rightarrow> 'n json response \<Rightarrow> (error + 'n result) option" where
  \<comment> \<open>\<open>callTool\<close> after \<open>fetch\<close> has delivered the response\<close>
  "respond P r =
     (if \<not> ok r then
        Some (Inl (Error (''API error ('' @ decimal (status r) @ ''): '' @ body_text r)))
      else if content_type_includes ''text/event-stream'' r then
        (case handleSSEStream P (body_reads r) of
           None \<Rightarrow> None
         | Some (Inl e) \<Rightarrow> Some (Inl e)
         | Some (Inr s) \<Rightarrow> Some (Inr (Stream s)))
      else if content_type_includes ''application/json'' r then
        (case body_json r of Inl e \<Rightarrow> Some (Inl e) | Inr v \<Rightarrow> Some (Inr (Value v)))
      else Some (Inr (Text (body_text r))))"

definition callTool ::
  "('n, 'd) platform \<Rightarrow> (request \<Rightarrow> error + 'n json response) \<Rightarrow> string \<Rightarrow> 'n tool \<Rightarrow> 'n obj
     \<Rightarrow> (error + 'n result) option" where
  "callTool P fetch key tool args =
     (case build_request P key tool args of
        Inl e \<Rightarrow> Some (Inl e)
      | Inr req \<Rightarrow>
          (case fetch req of
             Inl e \<Rightarrow> Some (Inl e)
           | Inr r \<Rightarrow> respond P r))"

section \<open>The server: manifest, start, tools/call\<close>

text \<open>
  The manifest is the JSON document of \<open>/mcp.json\<close>, an object read through the fields
  the code uses: \<open>name\<close>, \<open>version\<close> and \<open>tools\<close>, each tool with \<open>name\<close>,
  \<open>description\<close>, \<open>inputSchema\<close> and \<open>handler: {method, url}\<close>. The property \<open>tools\<close>
  is absent (\<open>None\<close>), an array of tools, or a JSON value that is not an array, which
  the guard of \<open>start\<close> reads as well. The document \<open>null\<close> is \<open>None\<close> of
  \<open>'n manifest option\<close>, as is \<open>this.manifest\<close> before the first fetch. A document
  that is neither (a boolean, a number, a string, an array) has no property \<open>tools\<close>,
  and the code treats it as it treats an object without \<open>tools\<close>.
\<close>

datatype 'n not_array =
  NullValue
| BoolValue bool
| NumValue 'n
| StrValue string
| ObjValue "'n obj"

fun json_of :: "'n not_array \<Rightarrow> 'n json" where
  "json_of NullValue = JNull"
| "json_of (BoolValue b) = JBool b"
| "json_of (NumValue n) = JNum n"
| "json_of (StrValue s) = JStr s"
| "json_of (ObjValue kvs) = JObj kvs"

datatype 'n tools_value = ToolList "'n tool list" | NotArray "'n not_array"

record 'n manifest =
  manifest_name :: string
  version :: "string option"
  tools :: "'n tools_value option"

record 'n server =
  domain :: string
  apiKey :: string
  baseUrl :: string
  server_manifest :: "'n manifest option"

definition new_server :: "string \<Rightarrow> string \<Rightarrow> 'n server" where
  \<comment> \<open>the constructor\<close>
  "new_server d key =
     \<lparr>domain = d, apiKey = key,
      baseUrl = (if startsWith ''http'' d then d else ''https://'' @ d),
      server_manifest = None\<rparr>"

definition manifest_url :: "'n server \<Rightarrow> string" where
  "manifest_url srv = baseUrl srv @ ''/mcp.json''"

definition could_not_connect :: "'n server \<Rightarrow> string \<Rightarrow> error" where
  \<comment> \<open>what the \<open>catch\<close> of \<open>fetchManifest\<close> throws for an exception with message \<open>msg\<close>\<close>
  "could_not_connect srv msg = Error (''Could not connect to '' @ manifest_url srv @ '' - '' @ msg)"

definition fetchManifest ::
  "(string \<Rightarrow> error + 'n manifest option response) \<Rightarrow> 'n server
     \<Rightarrow> (error + 'n manifest option) \<times> 'n server" where
  "fetchManifest fetch srv =
     (case fetch (manifest_url srv) of
        Inl e \<Rightarrow> (Inl (could_not_connect srv (message e)), srv)
      | Inr r \<Rightarrow>
          if \<not> ok r then
            (Inl (could_not_connect srv
                    (''Failed to fetch manifest: '' @ decimal (status r) @ '' '' @ statusText r)),
             srv)
          else
            (case body_json r of
               Inl e \<Rightarrow> (Inl (could_not_connect srv (message e)), srv)
             | Inr m \<Rightarrow> (Inr m, srv\<lparr>server_manifest := m\<rparr>)))"

fun length_is_zero :: "('n, 'd) platform \<Rightarrow> 'n json \<Rightarrow> bool" where
  \<comment> \<open>\<open>v.length === 0\<close> for a truthy \<open>v\<close>: the length of an array or a string, the own
     property \<open>length\<close> of an object, and \<open>undefined\<close> on a boolean or a number\<close>
  "length_is_zero P (JArr xs) = (length xs = 0)"
| "length_is_zero P (JStr s) = (length s = 0)"
| "length_is_zero P (JObj kvs) =
     (case map_of kvs ''length'' of Some (JNum n) \<Rightarrow> num_is_zero P n | _ \<Rightarrow> False)"
| "length_is_zero P v = False"

definition no_tools :: "('n, 'd) platform \<Rightarrow> 'n manifest option \<Rightarrow> bool" where
  \<comment> \<open>\<open>!this.manifest || !this.manifest.tools || this.manifest.tools.length === 0\<close>\<close>
  "no_tools P m =
     (case m of
        None \<Rightarrow> True
      | Some mf \<Rightarrow>
          (case tools mf of
             None \<Rightarrow> True
           | Some (ToolList ts) \<Rightarrow> length ts = 0
           | Some (NotArray v) \<Rightarrow>
               \<not> truthy P (Some (json_of v)) \<or> length_is_zero P (json_of v)))"

definition start ::
  "('n, 'd) platform \<Rightarrow> (string \<Rightarrow> error + 'n manifest option response) \<Rightarrow> 'n server
     \<Rightarrow> (error + unit) \<times> 'n server" where
  \<comment> \<open>\<open>start\<close> up to the creation of the protocol server, which is the SDK's: the fetch
     and the guard on the tools. After them the two handlers are registered.\<close>
  "start P fetch srv =
     (case fetchManifest fetch srv of
        (Inl e, srv') \<Rightarrow> (Inl e, srv')
      | (Inr m, srv') \<Rightarrow>
          if no_tools P (server_manifest srv')
          then (Inl (Error ''No tools found in MCP manifest''), srv')
          else (Inr (), srv'))"

definition tool_not_found :: "string \<Rightarrow> error" where
  "tool_not_found toolName = Error (''Tool '' @ [CHR 0x27] @ toolName @ [CHR 0x27] @ '' not found'')"

definition cannot_read :: "string \<Rightarrow> string \<Rightarrow> error" where
  \<comment> \<open>what reading the property \<open>k\<close> of \<open>null\<close> or \<open>undefined\<close> throws\<close>
  "cannot_read v k =
     TypeError (''Cannot read properties of '' @ v @ '' (reading '' @ [CHR 0x27] @ k @ [CHR 0x27] @ '')'')"

definition tools_call ::
  "('n, 'd) platform \<Rightarrow> (request \<Rightarrow> error + 'n json response) \<Rightarrow> 'n server \<Rightarrow> string
     \<Rightarrow> 'n obj option \<Rightarrow> ((error + string) \<times> 'n server) option" where
  \<comment> \<open>The handler of \<open>tools/call\<close>, for \<open>request.params.name\<close> and the entries of
     \<open>request.params.arguments\<close> (absent: \<open>{}\<close>). It returns the text of the reply or
     the exception, and the server as the call leaves it; \<open>None\<close> when it never returns.\<close>
  "tools_call P fetch srv toolName arguments =
     (let args = (case arguments of None \<Rightarrow> [] | Some a \<Rightarrow> a) in
      case server_manifest srv of
        None \<Rightarrow> Some (Inl (cannot_read ''null'' ''tools''), srv)
      | Some m \<Rightarrow>
          (case tools m of
             None \<Rightarrow> Some (Inl (cannot_read ''undefined'' ''find''), srv)
           | Some (NotArray NullValue) \<Rightarrow> Some (Inl (cannot_read ''null'' ''find''), srv)
           | Some (NotArray v) \<Rightarrow>
               Some (Inl (TypeError ''this.manifest.tools.find is not a function''), srv)
           | Some (ToolList ts) \<Rightarrow>
               (case find (\<lambda>t. name t = toolName) ts of
                  None \<Rightarrow> Some (Inl (tool_not_found toolName), srv)
                | Some tool \<Rightarrow>
                    (case callTool P fetch (apiKey srv) tool args of
                       None \<Rightarrow> None
                     | Some (Inl e) \<Rightarrow> Some (Inl e, srv)
                     | Some (Inr response) \<Rightarrow>
                         Some (Inr (JSON_stringify_indented P response), srv)))))"

section \<open>A platform for ASCII text\<close>

text \<open>
  An instance of the platform, to run the code on concrete inputs. Its decoder passes a
  byte on as the character of that code, which is what UTF-8 decoding does to a byte
  below 128. Its \<open>JSON.parse\<close> follows the JSON grammar (ECMA-404) on strings of
  code units below 256, with an object's entries in the order of the text; a number is
  kept as its numeral, so converting one to a string or to a boolean is exact for a
  numeral in the form the engine prints (as \<open>42\<close>), and approximate otherwise. Its
  \<open>URLSearchParams\<close> takes a sequence of pairs of strings, read from the elements of the
  array; it throws on any other sequence.
\<close>

definition is_ws :: "char \<Rightarrow> bool" where
  "is_ws c = (c = CHR '' '' \<or> c = CHR 0x09 \<or> c = CHR 0x0A \<or> c = CHR 0x0D)"

definition skip_ws :: "string \<Rightarrow> string" where
  "skip_ws s = dropWhile is_ws s"

definition is_digit :: "char \<Rightarrow> bool" where
  "is_digit c = (let n = (of_char c :: nat) in 48 \<le> n \<and> n \<le> 57)"

definition hex_value :: "char \<Rightarrow> nat option" where
  "hex_value c =
     (let n = (of_char c :: nat) in
      if 48 \<le> n \<and> n \<le> 57 then Some (n - 48)
      else if 65 \<le> n \<and> n \<le> 70 then Some (n - 55)
      else if 97 \<le> n \<and> n \<le> 102 then Some (n - 87)
      else None)"

definition escape :: "char \<Rightarrow> char option" where
  "escape e =
     (if e = CHR 0x22 \<or> e = CHR 0x5C \<or> e = CHR ''/'' then Some e
      else if e = CHR ''b'' then Some (CHR 0x08)
      else if e = CHR ''f'' then Some (CHR 0x0C)
      else if e = CHR ''n'' then Some (CHR 0x0A)
      else if e = CHR ''r'' then Some (CHR 0x0D)
      else if e = CHR ''t'' then Some (CHR 0x09)
      else None)"

definition hex4 :: "char \<Rightarrow> char \<Rightarrow> char \<Rightarrow> char \<Rightarrow> nat option" where
  "hex4 a b c d =
     (case (hex_value a, hex_value b, hex_value c, hex_value d) of
        (Some w, Some x, Some y, Some z) \<Rightarrow> Some (((w * 16 + x) * 16 + y) * 16 + z)
      | _ \<Rightarrow> None)"

definition cons_char :: "char \<Rightarrow> (string \<times> string) option \<Rightarrow> (string \<times> string) option" where
  "cons_char c r = (case r of None \<Rightarrow> None | Some (s, rest) \<Rightarrow> Some (c # s, rest))"

fun parse_chars :: "string \<Rightarrow> (string \<times> string) option" where
  "parse_chars [] = None"
| "parse_chars (c # cs) =
     (if c = CHR 0x22 then Some ([], cs)
      else if c = CHR 0x5C then
        (case cs of
           [] \<Rightarrow> None
         | e # r \<Rightarrow>
             if e = CHR ''u'' then
               (case r of
                  h1 # h2 # h3 # h4 # r' \<Rightarrow>
                    (case hex4 h1 h2 h3 h4 of
                       None \<Rightarrow> None
                     | Some n \<Rightarrow> if n < 256 then cons_char (char_of n) (parse_chars r') else None)
                | _ \<Rightarrow> None)
             else
               (case escape e of None \<Rightarrow> None | Some x \<Rightarrow> cons_char x (parse_chars r)))
      else if (of_char c :: nat) < 32 then None
      else cons_char c (parse_chars cs))"

definition parse_number :: "string \<Rightarrow> (string \<times> string) option" where
  "parse_number s =
     (let sign = takeWhile (\<lambda>c. c = CHR ''-'') (take 1 s);
          s1 = drop (length sign) s;
          ip = takeWhile is_digit s1;
          s2 = dropWhile is_digit s1;
          dot = takeWhile (\<lambda>c. c = CHR ''.'') (take 1 s2);
          fp = takeWhile is_digit (drop (length dot) s2);
          s3 = drop (length dot + length fp) s2;
          e = takeWhile (\<lambda>c. c = CHR ''e'' \<or> c = CHR ''E'') (take 1 s3);
          es = takeWhile (\<lambda>c. c = CHR ''+'' \<or> c = CHR ''-'') (take 1 (drop (length e) s3));
          ep = takeWhile is_digit (drop (length e + length es) s3);
          s4 = drop (length e + length es + length ep) s3
      in if ip = [] \<or> (length ip > 1 \<and> take 1 ip = ''0'') then None
         else if dot \<noteq> [] \<and> fp = [] then None
         else if e \<noteq> [] \<and> ep = [] then None
         else if e = [] then Some (sign @ ip @ dot @ fp, s3)
         else Some (sign @ ip @ dot @ fp @ e @ es @ ep, s4))"

definition make_object :: "(string \<times> 'n json) list \<Rightarrow> 'n json" where
  "make_object members = JObj (foldl (\<lambda>ob kv. obj_define ob (fst kv) (snd kv)) [] members)"

fun parse_value :: "nat \<Rightarrow> string \<Rightarrow> (string json \<times> string) option"
  and parse_elements :: "nat \<Rightarrow> string \<Rightarrow> (string json list \<times> string) option"
  and parse_members :: "nat \<Rightarrow> string \<Rightarrow> ((string \<times> string json) list \<times> string) option"
where
  "parse_value 0 s = None"
| "parse_value (Suc n) s =
     (case skip_ws s of
        [] \<Rightarrow> None
      | c # cs \<Rightarrow>
          if c = CHR ''{'' then
            (case skip_ws cs of
               [] \<Rightarrow> None
             | c' # r \<Rightarrow>
                 if c' = CHR ''}'' then Some (JObj [], r)
                 else (case parse_members n cs of
                         None \<Rightarrow> None
                       | Some (kvs, r') \<Rightarrow> Some (make_object kvs, r')))
          else if c = CHR ''['' then
            (case skip_ws cs of
               [] \<Rightarrow> None
             | c' # r \<Rightarrow>
                 if c' = CHR '']'' then Some (JArr [], r)
                 else (case parse_elements n cs of
                         None \<Rightarrow> None
                       | Some (vs, r') \<Rightarrow> Some (JArr vs, r')))
          else if c = CHR 0x22 then
            (case parse_chars cs of None \<Rightarrow> None | Some (str, r) \<Rightarrow> Some (JStr str, r))
          else if startsWith ''true'' (c # cs) then Some (JBool True, drop 4 (c # cs))
          else if startsWith ''false'' (c # cs) then Some (JBool False, drop 5 (c # cs))
          else if startsWith ''null'' (c # cs) then Some (JNull, drop 4 (c # cs))
          else (case parse_number (c # cs) of
                  None \<Rightarrow> None
                | Some (lx, r) \<Rightarrow> Some (JNum lx, r)))"
| "parse_elements 0 s = None"
| "parse_elements (Suc n) s =
     (case parse_value n s of
        None \<Rightarrow> None
      | Some (v, r) \<Rightarrow>
          (case skip_ws r of
             [] \<Rightarrow> None
           | c # r' \<Rightarrow>
               if c = CHR '','' then
                 (case parse_elements n r' of
                    None \<Rightarrow> None
                  | Some (vs, r'') \<Rightarrow> Some (v # vs, r''))
               else if c = CHR '']'' then Some ([v], r')
               else None))"
| "parse_members 0 s = None"
| "parse_members (Suc n) s =
     (case skip_ws s of
        [] \<Rightarrow> None
      | q # r \<Rightarrow>
          if q \<noteq> CHR 0x22 then None
          else
            (case parse_chars r of
               None \<Rightarrow> None
             | Some (k, r1) \<Rightarrow>
                 (case skip_ws r1 of
                    [] \<Rightarrow> None
                  | col # r2 \<Rightarrow>
                      if col \<noteq> CHR '':'' then None
                      else
                        (case parse_value n r2 of
                           None \<Rightarrow> None
                         | Some (v, r3) \<Rightarrow>
                             (case skip_ws r3 of
                                [] \<Rightarrow> None
                              | c # r4 \<Rightarrow>
                                  if c = CHR '','' then
                                    (case parse_members n r4 of
                                       None \<Rightarrow> None
                                     | Some (kvs, r5) \<Rightarrow> Some ((k, v) # kvs, r5))
                                  else if c = CHR ''}'' then Some ([(k, v)], r4)
                                  else None)))))"

definition json_parse :: "string \<Rightarrow> error + string json" where
  "json_parse s =
     (case parse_value (2 * length s + 2) s of
        None \<Rightarrow> Inl (SyntaxError ''Unexpected token in JSON'')
      | Some (v, r) \<Rightarrow>
          if skip_ws r = [] then Inr v else Inl (SyntaxError ''Unexpected token in JSON''))"

definition quote_char :: "char \<Rightarrow> string" where
  "quote_char c =
     (let n = (of_char c :: nat) in
      if c = CHR 0x22 \<or> c = CHR 0x5C then [CHR 0x5C, c]
      else if c = CHR 0x08 then [CHR 0x5C, CHR ''b'']
      else if c = CHR 0x09 then [CHR 0x5C, CHR ''t'']
      else if c = CHR 0x0A then [CHR 0x5C, CHR ''n'']
      else if c = CHR 0x0C then [CHR 0x5C, CHR ''f'']
      else if c = CHR 0x0D then [CHR 0x5C, CHR ''r'']
      else if n < 32 then [CHR 0x5C] @ ''u00'' @ [hex_digit (n div 16), if n mod 16 < 10 then hex_digit (n mod 16) else char_of (87 + n mod 16)]
      else [c])"

definition quote :: "string \<Rightarrow> string" where
  "quote s = [CHR 0x22] @ concat (map quote_char s) @ [CHR 0x22]"

fun json_text :: "string \<Rightarrow> string \<Rightarrow> string json \<Rightarrow> string" where
  \<comment> \<open>\<open>JSON.stringify\<close> with the indentation unit \<open>gap\<close>, at the indentation \<open>ind\<close>\<close>
  "json_text gap ind JNull = ''null''"
| "json_text gap ind (JBool b) = (if b then ''true'' else ''false'')"
| "json_text gap ind (JNum lx) = lx"
| "json_text gap ind (JStr s) = quote s"
| "json_text gap ind (JArr xs) =
     (if xs = [] then ''[]''
      else if gap = [] then ''['' @ join '','' (map (json_text gap ind) xs) @ '']''
      else ''['' @ [CHR 0x0A] @ ind @ gap
             @ join ('','' @ [CHR 0x0A] @ ind @ gap) (map (json_text gap (ind @ gap)) xs)
             @ [CHR 0x0A] @ ind @ '']'')"
| "json_text gap ind (JObj kvs) =
     (if kvs = [] then ''{}''
      else if gap = [] then
        ''{'' @ join '','' (map (\<lambda>kv. quote (fst kv) @ '':'' @ json_text gap ind (snd kv)) kvs) @ ''}''
      else ''{'' @ [CHR 0x0A] @ ind @ gap
             @ join ('','' @ [CHR 0x0A] @ ind @ gap)
                 (map (\<lambda>kv. quote (fst kv) @ '': '' @ json_text gap (ind @ gap) (snd kv)) kvs)
             @ [CHR 0x0A] @ ind @ ''}'')"

fun result_object :: "string result \<Rightarrow> string json" where
  \<comment> \<open>the value \<open>callTool\<close> returned, as the JSON value \<open>JSON.stringify\<close> sees\<close>
  "result_object (Value v) = v"
| "result_object (Text s) = JStr s"
| "result_object (Stream (StreamText c evs n)) =
     JObj [(''type'', JStr ''stream''), (''content'', JStr c), (''events'', JArr evs),
           (''eventCount'', JNum (decimal n))]"
| "result_object (Stream (StreamEvents evs n)) =
     JObj [(''type'', JStr ''stream''), (''events'', JArr evs), (''eventCount'', JNum (decimal n))]"
| "result_object (Stream (StreamEmpty msg evs)) =
     JObj [(''type'', JStr ''stream''), (''message'', JStr msg), (''events'', JArr evs)]"

definition numeral_is_zero :: "string \<Rightarrow> bool" where
  "numeral_is_zero lx =
     list_all (\<lambda>c. c = CHR ''0'')
       (filter is_digit (takeWhile (\<lambda>c. c \<noteq> CHR ''e'' \<and> c \<noteq> CHR ''E'') lx))"

fun string_pair :: "string json \<Rightarrow> (string \<times> string) option" where
  "string_pair (JArr [JStr a, JStr b]) = Some (a, b)"
| "string_pair v = None"

definition pairs_toString :: "string obj \<Rightarrow> string json list \<Rightarrow> error + string" where
  "pairs_toString own xs =
     (case those (map string_pair xs) of
        None \<Rightarrow> Inl (TypeError ''Each query pair must be an iterable [name, value] tuple'')
      | Some ps \<Rightarrow>
          Inr (join ''&'' (map (\<lambda>p. form_encode (fst p) @ ''='' @ form_encode (snd p)) ps)))"

definition ascii_platform :: "(string, unit) platform" where
  "ascii_platform =
     \<lparr>JSON_parse = json_parse,
      JSON_stringify = json_text [] [],
      JSON_stringify_indented = (\<lambda>r. json_text ''  '' [] (result_object r)),
      num_is_zero = numeral_is_zero,
      num_to_string = (\<lambda>lx. lx),
      decoder_init = (),
      decoder_step = (\<lambda>d b. ([b], d)),
      URLSearchParams_sequence = pairs_toString\<rparr>"

section \<open>Scenario data\<close>

text \<open>
  The manifest of the scenario,
  \<open>{"name":"demo","tools":[{"name":"get_user","inputSchema":{},"handler":{"method":"GET","url":"https://x/users/{id}"}}]}\<close>,
  a server that has fetched it, the request the scenario expects for \<open>id = "42"\<close>,
  and a few responses.
\<close>

definition get_user :: "string tool" where
  "get_user =
     \<lparr>name = ''get_user'', description = None, inputSchema = Some (JObj []),
      handler = \<lparr>handler_method = ''GET'', handler_url = ''https://x/users/{id}''\<rparr>\<rparr>"

definition get_user_request :: "string \<Rightarrow> request" where
  "get_user_request key =
     \<lparr>req_url = ''https://x/users/42'', req_method = ''GET'',
      req_headers =
        [(''Authorization'', ''Bearer '' @ key),
         (''Content-Type'', ''application/json''),
         (''User-Agent'', ''shov-mcp/1.0.0''),
         (''Accept'', ''application/json, text/event-stream'')],
      req_body = None\<rparr>"

definition create_user :: "string tool" where
  "create_user =
     \<lparr>name = ''create_user'', description = None, inputSchema = Some (JObj []),
      handler = \<lparr>handler_method = ''POST'', handler_url = ''https://x/users''\<rparr>\<rparr>"

definition demo_manifest :: "string manifest" where
  "demo_manifest = \<lparr>manifest_name = ''demo'', version = None, tools = Some (ToolList [get_user])\<rparr>"

definition demo_server :: "string server" where
  "demo_server = (new_server ''x'' ''pk_1'')\<lparr>server_manifest := Some demo_manifest\<rparr>"

definition forbidden :: "string json response" where
  "forbidden =
     \<lparr>ok = False, status = 403, statusText = ''Forbidden'', content_type = Some ''text/plain'',
      body_text = ''not allowed'', body_json = Inl (SyntaxError ''Unexpected token''),
      body_reads = (\<lambda>i. Done)\<rparr>"

definition empty_manifest :: "string manifest" where
  "empty_manifest = \<lparr>manifest_name = ''demo'', version = None, tools = Some (ToolList [])\<rparr>"

definition object_tools_manifest :: "string manifest" where
  \<comment> \<open>\<open>{"name":"demo","tools":{}}\<close>\<close>
  "object_tools_manifest =
     \<lparr>manifest_name = ''demo'', version = None, tools = Some (NotArray (ObjValue []))\<rparr>"

definition manifest_response :: "(error + string manifest option) \<Rightarrow> string manifest option response" where
  "manifest_response j =
     \<lparr>ok = True, status = 200, statusText = ''OK'', content_type = Some ''application/json'',
      body_text = [], body_json = j, body_reads = (\<lambda>i. Done)\<rparr>"

definition server0 :: "string server" where
  "server0 = new_server ''x'' ''pk_1''"

section \<open>Properties\<close>

lemma startsWith_eval [simp]:
  "startsWith [] s = True"
  "startsWith (p # ps) [] = False"
  "startsWith (p # ps) (c # cs) = (p = c \<and> startsWith ps cs)"
  by (auto simp: startsWith_def)

declare decimal.simps [simp del]

lemmas classify_eval =
  classify_def separate_param_def placeholder_def encodeURIComponent_def
  ToString_def encodeURIComponent_str_def uri_unreserved_def alnum_def obj_set_def proto_set_def

text \<open>
  C4. The resolved URL should contain no \<open>{id}\<close> once the argument \<open>id\<close> is classified.
  The loop replaces one occurrence for each key, the first: on the template
  \<open>https://x/{id}/{id}\<close> with \<open>id = "42"\<close> it resolves to \<open>https://x/42/{id}\<close>.
\<close>

theorem classify_repeated_placeholder:
  "classify P ''https://x/{id}/{id}'' ''GET'' [(''id'', JStr ''42'')]
     = Inr \<lparr>requestUrl = ''https://x/42/{id}'', pathParams = [(''id'', JStr ''42'')],
            queryParams = [], bodyParams = [], queryPrototype = None\<rparr>
   \<and> str_includes ''{id}'' ''https://x/42/{id}''"
  by (simp add: classify_def separate_param_def placeholder_def encodeURIComponent_def
      ToString_def encodeURIComponent_str_def uri_unreserved_def alnum_def obj_set_def)

subsection \<open>The line buffer across reads\<close>

lemma split_nl_nonempty [simp]: "str_split_nl s \<noteq> []"
  by (induction s) (auto split: list.splits)

lemma split_nl_no_nl: "CHR 0x0A \<notin> set s \<Longrightarrow> str_split_nl s = [s]"
  by (induction s) auto

lemma last_split_nl_no_nl: "CHR 0x0A \<notin> set (last (str_split_nl s))"
  by (induction s) (auto split: list.splits)

lemma split_nl_append:
  "str_split_nl (a @ b) = butlast (str_split_nl a) @ str_split_nl (last (str_split_nl a) @ b)"
proof (induction a)
  case Nil
  show ?case by simp
next
  case (Cons c cs)
  show ?case
  proof (cases "c = CHR 0x0A")
    case True
    with Cons show ?thesis by simp
  next
    case False
    obtain l ls where ls: "str_split_nl cs = l # ls"
      by (cases "str_split_nl cs") auto
    show ?thesis
    proof (cases ls)
      case Nil
      with ls False Cons show ?thesis by simp
    next
      case (Cons l' ls')
      with ls False Cons.IH show ?thesis by (simp split: list.splits)
    qed
  qed
qed

lemma decode_append:
  "decode P d (a @ b) =
     (case decode P d a of (x, d1) \<Rightarrow> (case decode P d1 b of (y, d2) \<Rightarrow> (x @ y, d2)))"
  by (induction a arbitrary: d) (auto split: prod.splits)

lemma on_chunk_append: "on_chunk P (on_chunk P st a) b = on_chunk P st (a @ b)"
proof -
  obtain x d1 where a: "decode P (decoder st) a = (x, d1)" by (cases "decode P (decoder st) a")
  obtain y d2 where b: "decode P d1 b = (y, d2)" by (cases "decode P d1 b")
  have ab: "decode P (decoder st) (a @ b) = (x @ y, d2)"
    by (simp add: decode_append a b)
  let ?l1 = "str_split_nl (buffer st @ x)"
  let ?l2 = "str_split_nl (last ?l1 @ y)"
  have sp: "str_split_nl (buffer st @ x @ y) = butlast ?l1 @ ?l2"
    using split_nl_append [of "buffer st @ x" y] by simp
  have bl: "butlast (butlast ?l1 @ ?l2) = butlast ?l1 @ butlast ?l2"
    by (simp add: butlast_append)
  have la: "last (butlast ?l1 @ ?l2) = last ?l2"
    by simp
  show ?thesis
    by (simp add: on_chunk_def Let_def a b ab sp bl la split: prod.splits)
qed

lemma on_chunk_nil: "CHR 0x0A \<notin> set (buffer st) \<Longrightarrow> on_chunk P st [] = st"
  by (simp add: on_chunk_def Let_def split_nl_no_nl)

lemma on_chunk_buffer: "CHR 0x0A \<notin> set (buffer (on_chunk P st v))"
  by (simp add: on_chunk_def Let_def last_split_nl_no_nl split: prod.splits)

lemma foldl_on_chunk:
  "CHR 0x0A \<notin> set (buffer st) \<Longrightarrow> foldl (on_chunk P) st cs = on_chunk P st (concat cs)"
proof (induction cs arbitrary: st)
  case Nil
  then show ?case by (simp add: on_chunk_nil)
next
  case (Cons c cs)
  have "foldl (on_chunk P) (on_chunk P st c) cs = on_chunk P (on_chunk P st c) (concat cs)"
    by (rule Cons.IH) (rule on_chunk_buffer)
  then show ?case by (simp add: on_chunk_append)
qed

lemma read_loop_reader_of:
  "i \<le> length cs \<Longrightarrow> read_loop P (reader_of cs) i st = Some (Inr (foldl (on_chunk P) st (drop i cs)))"
proof (induction "length cs - i" arbitrary: i st)
  case 0
  then show ?case by (subst read_loop.simps) (simp add: reader_of_def)
next
  case (Suc n)
  then have lt: "i < length cs" by simp
  have "read_loop P (reader_of cs) (Suc i) (on_chunk P st (cs ! i))
        = Some (Inr (foldl (on_chunk P) (on_chunk P st (cs ! i)) (drop (Suc i) cs)))"
    using Suc lt by (intro Suc.hyps) auto
  moreover have "drop i cs = cs ! i # drop (Suc i) cs"
    using lt by (simp add: Cons_nth_drop_Suc)
  ultimately show ?case
    using lt by (subst read_loop.simps) (simp add: reader_of_def)
qed

lemma handleSSEStream_reader_of:
  "handleSSEStream P (reader_of chunks)
     = Some (Inr (stream_result (on_chunk P (sse_init P) (concat chunks))))"
proof -
  have "CHR 0x0A \<notin> set (buffer (sse_init P))"
    by (simp add: sse_init_def)
  then have "foldl (on_chunk P) (sse_init P) chunks = on_chunk P (sse_init P) (concat chunks)"
    by (rule foldl_on_chunk)
  then have "read_loop P (reader_of chunks) 0 (sse_init P)
               = Some (Inr (on_chunk P (sse_init P) (concat chunks)))"
    using read_loop_reader_of [of 0 chunks P "sse_init P"] by simp
  then show ?thesis by (simp add: handleSSEStream_def)
qed

text \<open>
  C2. One read of the whole byte stream and any split of it into partial reads, in the
  middle of a line or of a token too, give the same result: the same events in the
  same order and the same accumulated text. Both runs return, and they leave the loop
  in the same state.
\<close>

theorem handleSSEStream_chunking:
  "handleSSEStream P (reader_of chunks) = handleSSEStream P (reader_of [concat chunks])
   \<and> read_loop P (reader_of chunks) 0 (sse_init P)
       = read_loop P (reader_of [concat chunks]) 0 (sse_init P)
   \<and> (\<exists>r. handleSSEStream P (reader_of chunks) = Some (Inr r))"
proof -
  have b0: "CHR 0x0A \<notin> set (buffer (sse_init P))"
    by (simp add: sse_init_def)
  have whole: "read_loop P (reader_of [concat chunks]) 0 (sse_init P)
                 = Some (Inr (on_chunk P (sse_init P) (concat chunks)))"
    using read_loop_reader_of [of 0 "[concat chunks]" P "sse_init P"] by simp
  have parts: "read_loop P (reader_of chunks) 0 (sse_init P)
                 = Some (Inr (on_chunk P (sse_init P) (concat chunks)))"
    using read_loop_reader_of [of 0 chunks P "sse_init P"] foldl_on_chunk [OF b0, of P chunks]
    by simp
  show ?thesis
    by (simp add: handleSSEStream_def whole parts)
qed

subsection \<open>The scenario of two deltas\<close>

lemma decode_ascii [simp]: "decode ascii_platform d bs = (bs, d)"
  by (induction bs) (auto simp: ascii_platform_def)

text \<open>
  C1. The stream of the three lines \<open>data: {"type":"delta","content":"Hi"}\<close>,
  \<open>data: {"type":"delta","content":" there"}\<close> and \<open>data: [DONE]\<close>, each ended by a
  newline and delivered in any chunks, gives a stream result with the accumulated text
  \<open>Hi there\<close> and an event count of 2, on a platform that decodes these bytes to
  themselves and parses the two payloads as the objects they denote. A line whose
  payload is \<open>[DONE]\<close> changes neither the events nor the text.
\<close>

theorem handleSSEStream_hi_there:
  assumes p1: "JSON_parse P ''{\"type\":\"delta\",\"content\":\"Hi\"}''
                 = Inr (JObj [(''type'', JStr ''delta''), (''content'', JStr ''Hi'')])"
    and p2: "JSON_parse P ''{\"type\":\"delta\",\"content\":\" there\"}''
                 = Inr (JObj [(''type'', JStr ''delta''), (''content'', JStr '' there'')])"
    and bytes: "concat chunks =
                  ''data: {\"type\":\"delta\",\"content\":\"Hi\"}\<newline>''
                  @ ''data: {\"type\":\"delta\",\"content\":\" there\"}\<newline>''
                  @ ''data: [DONE]\<newline>''"
    and dec: "fst (decode P (decoder_init P) (concat chunks)) = concat chunks"
  shows "handleSSEStream P (reader_of chunks)
           = Some (Inr (StreamText ''Hi there''
                          [JObj [(''type'', JStr ''delta''), (''content'', JStr ''Hi'')],
                           JObj [(''type'', JStr ''delta''), (''content'', JStr '' there'')]] 2))
         \<and> process_line P (evs, txt) ''data: [DONE]'' = (evs, txt)"
proof -
  obtain d' where d: "decode P (decoder_init P) (concat chunks) = (concat chunks, d')"
    using dec by (cases "decode P (decoder_init P) (concat chunks)") auto
  have lines: "str_split_nl (concat chunks) =
     [''data: {\"type\":\"delta\",\"content\":\"Hi\"}'',
      ''data: {\"type\":\"delta\",\"content\":\" there\"}'',
      ''data: [DONE]'', []]"
    unfolding bytes by simp
  have l1: "process_line P ([], []) ''data: {\"type\":\"delta\",\"content\":\"Hi\"}''
              = ([JObj [(''type'', JStr ''delta''), (''content'', JStr ''Hi'')]], ''Hi'')"
    by (simp add: process_line_def p1 note_event_def field_def js_or_def ToString_def)
  have l2: "process_line P ([JObj [(''type'', JStr ''delta''), (''content'', JStr ''Hi'')]], ''Hi'')
               ''data: {\"type\":\"delta\",\"content\":\" there\"}''
              = ([JObj [(''type'', JStr ''delta''), (''content'', JStr ''Hi'')],
                  JObj [(''type'', JStr ''delta''), (''content'', JStr '' there'')]], ''Hi there'')"
    by (simp add: process_line_def p2 note_event_def field_def js_or_def ToString_def)
  have l3: "process_line P acc ''data: [DONE]'' = acc" for acc
    by (cases acc) (simp add: process_line_def)
  have "on_chunk P (sse_init P) (concat chunks) =
          \<lparr>decoder = d', buffer = [],
           events = [JObj [(''type'', JStr ''delta''), (''content'', JStr ''Hi'')],
                     JObj [(''type'', JStr ''delta''), (''content'', JStr '' there'')]],
           streamedText = ''Hi there''\<rparr>"
    using d by (simp add: on_chunk_def sse_init_def lines l1 l2 l3)
  then show ?thesis
    by (simp add: handleSSEStream_reader_of stream_result_def l3)
qed

theorem handleSSEStream_hi_there_witness:
  "handleSSEStream ascii_platform
     (reader_of [''data: {\"type\":\"delta\",\"content\":\"Hi\"}\<newline>da'',
                 ''ta: {\"type\":\"delta\",\"con'',
                 ''tent\":\" there\"}\<newline>data: [DONE]\<newline>''])
   = Some (Inr (StreamText ''Hi there''
                  [JObj [(''type'', JStr ''delta''), (''content'', JStr ''Hi'')],
                   JObj [(''type'', JStr ''delta''), (''content'', JStr '' there'')]] 2))"
proof -
  have p1: "JSON_parse ascii_platform ''{\"type\":\"delta\",\"content\":\"Hi\"}''
                 = Inr (JObj [(''type'', JStr ''delta''), (''content'', JStr ''Hi'')])"
    unfolding ascii_platform_def platform.simps by code_simp
  have p2: "JSON_parse ascii_platform ''{\"type\":\"delta\",\"content\":\" there\"}''
                 = Inr (JObj [(''type'', JStr ''delta''), (''content'', JStr '' there'')])"
    unfolding ascii_platform_def platform.simps by code_simp
  have b: "concat [''data: {\"type\":\"delta\",\"content\":\"Hi\"}\<newline>da'',
                 ''ta: {\"type\":\"delta\",\"con'',
                 ''tent\":\" there\"}\<newline>data: [DONE]\<newline>'']
            = ''data: {\"type\":\"delta\",\"content\":\"Hi\"}\<newline>''
                  @ ''data: {\"type\":\"delta\",\"content\":\" there\"}\<newline>''
                  @ ''data: [DONE]\<newline>''"
    by simp
  have d: "fst (decode ascii_platform (decoder_init ascii_platform) (concat cs)) = concat cs" for cs
    by simp
  from handleSSEStream_hi_there [OF p1 p2 b d] show ?thesis
    by (rule conjunct1)
qed

subsection \<open>Separating the parameters\<close>

lemma keys_simps [simp]: "keys [] = {}" "keys (kv # ob) = insert (fst kv) (keys ob)"
  "keys (a @ b) = keys a \<union> keys b"
  by (auto simp: keys_def)

lemma in_keys: "(k, v) \<in> set ob \<Longrightarrow> k \<in> keys ob"
  unfolding keys_def by (rule image_eqI [where x = "(k, v)"]) simp_all

lemma obj_define_fresh: "k \<notin> keys ob \<Longrightarrow> obj_define ob k v = ob @ [(k, v)]"
proof (induction ob)
  case Nil
  show ?case by simp
next
  case (Cons a ob)
  obtain ak av where a: "a = (ak, av)" by (cases a)
  from Cons.prems have "ak \<noteq> k" and "k \<notin> keys ob"
    by (auto simp: a)
  with Cons.IH show ?case by (simp add: a)
qed

lemma obj_define_other:
  "k' \<noteq> k \<Longrightarrow> (k, v) \<in> set (obj_define ob k' v') \<longleftrightarrow> (k, v) \<in> set ob"
proof (induction ob)
  case Nil
  then show ?case by simp
next
  case (Cons a ob)
  obtain ak av where a: "a = (ak, av)" by (cases a)
  show ?case
  proof (cases "ak = k'")
    case True
    with Cons.prems show ?thesis by (simp add: a)
  next
    case False
    with Cons show ?thesis by (simp add: a)
  qed
qed

lemma obj_set_other:
  "k' \<noteq> k \<Longrightarrow> (k, v) \<in> set (obj_set ob k' v') \<longleftrightarrow> (k, v) \<in> set ob"
  by (simp add: obj_set_def obj_define_other)

lemma obj_set_fresh: "k \<notin> keys ob \<Longrightarrow> obj_set ob k v = ob @ stored [(k, v)]"
  by (simp add: obj_set_def stored_def obj_define_fresh)

lemma stored_simps [simp]:
  "stored [] = []" "stored (a @ b) = stored a @ stored b"
  "stored (kv # ob) = (if fst kv = ''__proto__'' then stored ob else kv # stored ob)"
  by (simp_all add: stored_def)

lemma keys_stored: "keys (stored ob) = keys ob - {''__proto__''}"
  unfolding keys_def stored_def by auto

lemma set_stored: "set (stored ob) = {kv \<in> set ob. fst kv \<noteq> ''__proto__''}"
  unfolding stored_def by simp

lemma separate_param_step:
  assumes "separate_param P m ps (k, v) = Inr ps'"
    and "k \<notin> keys (pathParams ps) \<union> keys (queryParams ps) \<union> keys (bodyParams ps)"
  shows "(pathParams ps' = pathParams ps @ stored [(k, v)] \<and> queryParams ps' = queryParams ps
            \<and> bodyParams ps' = bodyParams ps \<and> str_includes (placeholder k) (requestUrl ps))
       \<or> (pathParams ps' = pathParams ps \<and> queryParams ps' = queryParams ps @ stored [(k, v)]
            \<and> bodyParams ps' = bodyParams ps \<and> \<not> str_includes (placeholder k) (requestUrl ps)
            \<and> (m = ''GET'' \<or> m = ''DELETE''))
       \<or> (pathParams ps' = pathParams ps \<and> queryParams ps' = queryParams ps
            \<and> bodyParams ps' = bodyParams ps @ stored [(k, v)]
            \<and> \<not> str_includes (placeholder k) (requestUrl ps)
            \<and> m \<noteq> ''GET'' \<and> m \<noteq> ''DELETE'')"
proof (cases "str_includes (placeholder k) (requestUrl ps)")
  case True
  with assms(1) obtain enc where "encodeURIComponent P v = Inr enc"
    and "ps' = ps\<lparr>pathParams := obj_set (pathParams ps) k v,
                    requestUrl := str_replace (placeholder k) enc (requestUrl ps)\<rparr>"
    by (cases "encodeURIComponent P v") (simp_all add: separate_param_def)
  moreover have "obj_set (pathParams ps) k v = pathParams ps @ stored [(k, v)]"
    using assms(2) by (intro obj_set_fresh) simp
  ultimately show ?thesis using True by simp
next
  case False
  show ?thesis
  proof (cases "m = ''GET'' \<or> m = ''DELETE''")
    case True
    with False assms(1) have "ps' = ps\<lparr>queryParams := obj_set (queryParams ps) k v,
                                           queryPrototype := proto_set (queryPrototype ps) k v\<rparr>"
      by (auto simp: separate_param_def)
    moreover have "obj_set (queryParams ps) k v = queryParams ps @ stored [(k, v)]"
      using assms(2) by (intro obj_set_fresh) simp
    ultimately show ?thesis using True False by simp
  next
    case notget: False
    with False assms(1) have "ps' = ps\<lparr>bodyParams := obj_set (bodyParams ps) k v\<rparr>"
      by (auto simp: separate_param_def)
    moreover have "obj_set (bodyParams ps) k v = bodyParams ps @ stored [(k, v)]"
      using assms(2) by (intro obj_set_fresh) simp
    ultimately show ?thesis using notget False by simp
  qed
qed

lemma distinct_insert:
  assumes "distinct (map fst (a @ b @ c))" and "k \<notin> keys a \<union> keys b \<union> keys c"
  shows "distinct (map fst ((a @ stored [(k, v)]) @ b @ c))"
    and "distinct (map fst (a @ (b @ stored [(k, v)]) @ c))"
    and "distinct (map fst (a @ b @ c @ stored [(k, v)]))"
  using assms by (auto simp: keys_def)

lemma distinct_keys_apart:
  assumes "distinct (map fst a @ map fst b @ map fst c)"
  shows "keys a \<inter> keys b = {}" and "keys a \<inter> keys c = {}" and "keys b \<inter> keys c = {}"
  using assms unfolding keys_def by auto

lemma partitioned_keys:
  assumes "partitioned ps args"
  shows "keys (pathParams ps) \<union> keys (queryParams ps) \<union> keys (bodyParams ps) = keys (stored args)"
proof -
  have "set (pathParams ps) \<union> set (queryParams ps) \<union> set (bodyParams ps) = set (stored args)"
    using assms by (simp add: partitioned_def)
  then have "fst ` (set (pathParams ps) \<union> set (queryParams ps) \<union> set (bodyParams ps))
               = fst ` set (stored args)"
    by simp
  then show ?thesis
    by (simp add: keys_def image_Un)
qed

lemma separate_params_partitioned:
  assumes "separate_params P m ps args = Inr ps'"
    and "partitioned ps done" and "distinct (map fst (done @ args))"
  shows "partitioned ps' (done @ args)"
  using assms
proof (induction args arbitrary: ps "done")
  case Nil
  then show ?case by simp
next
  case (Cons kv args)
  obtain k v where kv: "kv = (k, v)" by (cases kv)
  from Cons.prems(1) obtain ps1 where
    s1: "separate_param P m ps (k, v) = Inr ps1" and s2: "separate_params P m ps1 args = Inr ps'"
    by (cases "separate_param P m ps (k, v)") (simp_all add: kv)
  have "k \<notin> keys done"
    using Cons.prems(3) by (simp add: kv keys_def)
  then have fresh: "k \<notin> keys (pathParams ps) \<union> keys (queryParams ps) \<union> keys (bodyParams ps)"
    unfolding partitioned_keys [OF Cons.prems(2)] keys_stored by simp
  have d0: "distinct (map fst (pathParams ps @ queryParams ps @ bodyParams ps))"
    and s0: "set (pathParams ps) \<union> set (queryParams ps) \<union> set (bodyParams ps) = set (stored done)"
    using Cons.prems(2) by (simp_all add: partitioned_def)
  from separate_param_step [OF s1 fresh] consider
      (path) "pathParams ps1 = pathParams ps @ stored [(k, v)]" "queryParams ps1 = queryParams ps"
        "bodyParams ps1 = bodyParams ps"
    | (query) "pathParams ps1 = pathParams ps" "queryParams ps1 = queryParams ps @ stored [(k, v)]"
        "bodyParams ps1 = bodyParams ps"
    | (body) "pathParams ps1 = pathParams ps" "queryParams ps1 = queryParams ps"
        "bodyParams ps1 = bodyParams ps @ stored [(k, v)]"
    by blast
  then have "partitioned ps1 (done @ [(k, v)])"
  proof cases
    case path
    have "set (pathParams ps1) \<union> set (queryParams ps1) \<union> set (bodyParams ps1)
            = set (stored done) \<union> set (stored [(k, v)])"
      unfolding path s0 [symmetric] by auto
    then show ?thesis
      using distinct_insert(1) [OF d0 fresh, of v] path by (simp add: partitioned_def)
  next
    case query
    have "set (pathParams ps1) \<union> set (queryParams ps1) \<union> set (bodyParams ps1)
            = set (stored done) \<union> set (stored [(k, v)])"
      unfolding query s0 [symmetric] by auto
    then show ?thesis
      using distinct_insert(2) [OF d0 fresh, of v] query by (simp add: partitioned_def)
  next
    case body
    have "set (pathParams ps1) \<union> set (queryParams ps1) \<union> set (bodyParams ps1)
            = set (stored done) \<union> set (stored [(k, v)])"
      unfolding body s0 [symmetric] by auto
    then show ?thesis
      using distinct_insert(3) [OF d0 fresh, of v] body by (simp add: partitioned_def)
  qed
  moreover have "distinct (map fst ((done @ [(k, v)]) @ args))"
    using Cons.prems(3) by (simp add: kv)
  ultimately have "partitioned ps' ((done @ [(k, v)]) @ args)"
    using s2 Cons.IH by blast
  then show ?case by (simp add: kv)
qed

lemma separate_params_append:
  "separate_params P m ps (a @ b) =
     (case separate_params P m ps a of Inl e \<Rightarrow> Inl e | Inr ps' \<Rightarrow> separate_params P m ps' b)"
proof (induction a arbitrary: ps)
  case Nil
  show ?case by simp
next
  case (Cons kv a)
  show ?case
    by (cases "separate_param P m ps kv") (simp_all add: Cons.IH)
qed

lemma separate_param_keeps:
  assumes "separate_param P m ps (k', v') = Inr ps'" and "k' \<noteq> k"
  shows "(k, v) \<in> set (pathParams ps) \<Longrightarrow> (k, v) \<in> set (pathParams ps')"
    and "(k, v) \<in> set (queryParams ps) \<Longrightarrow> (k, v) \<in> set (queryParams ps')"
    and "(k, v) \<in> set (bodyParams ps) \<Longrightarrow> (k, v) \<in> set (bodyParams ps')"
proof -
  have "(pathParams ps' = obj_set (pathParams ps) k' v' \<and> queryParams ps' = queryParams ps
           \<and> bodyParams ps' = bodyParams ps)
      \<or> (pathParams ps' = pathParams ps \<and> queryParams ps' = obj_set (queryParams ps) k' v'
           \<and> bodyParams ps' = bodyParams ps)
      \<or> (pathParams ps' = pathParams ps \<and> queryParams ps' = queryParams ps
           \<and> bodyParams ps' = obj_set (bodyParams ps) k' v')"
  proof (cases "str_includes (placeholder k') (requestUrl ps)")
    case True
    with assms(1) show ?thesis
      by (cases "encodeURIComponent P v'") (auto simp: separate_param_def)
  next
    case False
    with assms(1) show ?thesis
      by (cases "m = ''GET'' \<or> m = ''DELETE''") (auto simp: separate_param_def)
  qed
  then show "(k, v) \<in> set (pathParams ps) \<Longrightarrow> (k, v) \<in> set (pathParams ps')"
    and "(k, v) \<in> set (queryParams ps) \<Longrightarrow> (k, v) \<in> set (queryParams ps')"
    and "(k, v) \<in> set (bodyParams ps) \<Longrightarrow> (k, v) \<in> set (bodyParams ps')"
    using obj_set_other [OF assms(2), of v] by auto
qed

lemma separate_params_keeps:
  assumes "separate_params P m ps args = Inr ps'" and "k \<notin> keys args"
  shows "((k, v) \<in> set (pathParams ps) \<longrightarrow> (k, v) \<in> set (pathParams ps'))
       \<and> ((k, v) \<in> set (queryParams ps) \<longrightarrow> (k, v) \<in> set (queryParams ps'))
       \<and> ((k, v) \<in> set (bodyParams ps) \<longrightarrow> (k, v) \<in> set (bodyParams ps'))"
  using assms
proof (induction args arbitrary: ps)
  case Nil
  then show ?case by simp
next
  case (Cons kv args)
  obtain k' v' where kv: "kv = (k', v')" by (cases kv)
  from Cons.prems(1) obtain ps1 where
    s1: "separate_param P m ps (k', v') = Inr ps1" and s2: "separate_params P m ps1 args = Inr ps'"
    by (cases "separate_param P m ps (k', v')") (simp_all add: kv)
  have ne: "k' \<noteq> k" and rest: "k \<notin> keys args"
    using Cons.prems(2) by (auto simp: kv)
  show ?case
    using separate_param_keeps [OF s1 ne, of v] Cons.IH [OF s2 rest] by blast
qed

lemma startsWith_append: "startsWith p (p @ r)"
  by (simp add: startsWith_def)

lemma startsWith_split: "startsWith p s \<Longrightarrow> s = p @ drop (length p) s"
  unfolding startsWith_def by (metis append_take_drop_id)

lemma str_includes_nonempty: "sub \<noteq> [] \<Longrightarrow> \<not> str_includes sub []"
  by simp

lemma str_includes_startsWith: "startsWith sub s \<Longrightarrow> str_includes sub s"
  by (cases s) (simp_all add: startsWith_def)

lemma str_includes_append_left: "str_includes sub b \<Longrightarrow> str_includes sub (a @ b)"
  by (induction a) simp_all

lemma str_includes_skip:
  assumes "x \<notin> set xs"
  shows "str_includes (x # sub) (xs @ rest) = str_includes (x # sub) rest"
  using assms
proof (induction xs)
  case Nil
  show ?case by simp
next
  case (Cons c cs)
  then have "x \<noteq> c" and "x \<notin> set cs" by auto
  with Cons.IH show ?case by simp
qed

lemma str_replace_skip:
  assumes "x \<notin> set xs"
  shows "str_replace (x # pat) rep (xs @ rest) = xs @ str_replace (x # pat) rep rest"
  using assms
proof (induction xs)
  case Nil
  show ?case by simp
next
  case (Cons c cs)
  then have "x \<noteq> c" and "x \<notin> set cs" by auto
  with Cons.IH show ?case by simp
qed

lemma same_start:
  assumes "startsWith (j @ [e]) (k @ e # rest)" and "e \<notin> set j" and "e \<notin> set k"
  shows "j = k"
  using assms
proof (induction j arbitrary: k)
  case Nil
  then show ?case by (cases k) auto
next
  case (Cons a j)
  show ?case
  proof (cases k)
    case Nil
    with Cons.prems show ?thesis by auto
  next
    case (Cons c k')
    with Cons.prems have "a = c" and "startsWith (j @ [e]) (k' @ e # rest)"
      and "e \<notin> set j" and "e \<notin> set k'"
      by auto
    with Cons.IH Cons show ?thesis by auto
  qed
qed

lemma placeholder_Cons: "placeholder k = CHR ''{'' # (k @ ''}'')"
  by (simp add: placeholder_def)

lemma placeholder_past:
  assumes "str_includes (placeholder j) (placeholder k @ rest)"
    and "brace_free j" and "brace_free k" and "j \<noteq> k"
  shows "str_includes (placeholder j) rest"
proof -
  have no_open: "CHR ''{'' \<notin> set (k @ ''}'')"
    using assms(3) by (simp add: brace_free_def)
  have "\<not> startsWith (j @ ''}'') (k @ CHR ''}'' # rest)"
    using same_start [of j "CHR ''}''" k rest] assms(2,3,4) by (auto simp: brace_free_def)
  then have "str_includes (placeholder j) ((k @ ''}'') @ rest)"
    using assms(1) by (simp add: placeholder_Cons)
  then show ?thesis
    unfolding placeholder_Cons [of j] str_includes_skip [OF no_open] .
qed

lemma placeholder_survives:
  assumes "brace_free j" and "brace_free k" and "j \<noteq> k"
  shows "str_includes (placeholder j) s
           \<Longrightarrow> str_includes (placeholder j) (str_replace (placeholder k) rep s)"
proof (induction s)
  case Nil
  then show ?case by (simp add: placeholder_Cons)
next
  case (Cons c cs)
  show ?case
  proof (cases "startsWith (placeholder k) (c # cs)")
    case True
    then have s: "c # cs = placeholder k @ drop (length (placeholder k)) (c # cs)"
      by (rule startsWith_split)
    have "str_includes (placeholder j) (placeholder k @ drop (length (placeholder k)) (c # cs))"
      using Cons.prems s by simp
    then have "str_includes (placeholder j) (drop (length (placeholder k)) (c # cs))"
      using assms by (rule placeholder_past)
    then have "str_includes (placeholder j) (rep @ drop (length (placeholder k)) (c # cs))"
      by (rule str_includes_append_left)
    with True show ?thesis by simp
  next
    case False
    then have r: "str_replace (placeholder k) rep (c # cs) = c # str_replace (placeholder k) rep cs"
      by simp
    show ?thesis
    proof (cases "startsWith (placeholder j) (c # cs)")
      case True
      then have "c # cs = placeholder j @ drop (length (placeholder j)) (c # cs)"
        by (rule startsWith_split)
      then obtain rest where cs: "c = CHR ''{''" "cs = (j @ ''}'') @ rest"
        by (auto simp: placeholder_Cons)
      have no_open: "CHR ''{'' \<notin> set (j @ ''}'')"
        using assms(1) by (simp add: brace_free_def)
      have "str_replace (placeholder k) rep cs
              = (j @ ''}'') @ str_replace (placeholder k) rep rest"
        unfolding cs placeholder_Cons [of k] by (rule str_replace_skip [OF no_open])
      then have "c # str_replace (placeholder k) rep cs
                   = placeholder j @ str_replace (placeholder k) rep rest"
        by (simp add: cs placeholder_Cons)
      then have "startsWith (placeholder j) (c # str_replace (placeholder k) rep cs)"
        by (simp only: startsWith_append)
      then show ?thesis
        unfolding r by (rule str_includes_startsWith)
    next
      case nostart: False
      with Cons.prems have "str_includes (placeholder j) cs" by simp
      then have "str_includes (placeholder j) (str_replace (placeholder k) rep cs)"
        by (rule Cons.IH)
      then show ?thesis unfolding r by simp
    qed
  qed
qed

lemma separate_param_survives:
  assumes "separate_param P m ps (k, v) = Inr ps'"
    and "brace_free j" and "brace_free k" and "j \<noteq> k"
    and "str_includes (placeholder j) (requestUrl ps)"
  shows "str_includes (placeholder j) (requestUrl ps')"
proof (cases "str_includes (placeholder k) (requestUrl ps)")
  case True
  with assms(1) obtain enc where
    "requestUrl ps' = str_replace (placeholder k) enc (requestUrl ps)"
    by (cases "encodeURIComponent P v") (auto simp: separate_param_def)
  then show ?thesis
    using placeholder_survives [OF assms(2,3,4,5)] by simp
next
  case False
  with assms(1) have "requestUrl ps' = requestUrl ps"
    by (cases "m = ''GET'' \<or> m = ''DELETE''") (auto simp: separate_param_def)
  with assms(5) show ?thesis by simp
qed

lemma separate_params_survives:
  assumes "separate_params P m ps args = Inr ps'"
    and "brace_free j" and "\<forall>k \<in> keys args. brace_free k" and "j \<notin> keys args"
    and "str_includes (placeholder j) (requestUrl ps)"
  shows "str_includes (placeholder j) (requestUrl ps')"
  using assms
proof (induction args arbitrary: ps)
  case Nil
  then show ?case by simp
next
  case (Cons kv args)
  obtain k v where kv: "kv = (k, v)" by (cases kv)
  from Cons.prems(1) obtain ps1 where
    s1: "separate_param P m ps (k, v) = Inr ps1" and s2: "separate_params P m ps1 args = Inr ps'"
    by (cases "separate_param P m ps (k, v)") (simp_all add: kv)
  have bk: "brace_free k" and ne: "j \<noteq> k"
    and rest: "\<forall>k \<in> keys args. brace_free k" "j \<notin> keys args"
    using Cons.prems(3,4) by (auto simp: kv)
  have "str_includes (placeholder j) (requestUrl ps1)"
    using s1 Cons.prems(2) bk ne Cons.prems(5) by (rule separate_param_survives)
  with s2 Cons.prems(2) rest show ?case
    by (intro Cons.IH)
qed

text \<open>
  C3, as amended. The classification puts the entries of the arguments into the three
  objects \<open>pathParams\<close>, \<open>queryParams\<close> and \<open>bodyParams\<close>. Their key sets are pairwise
  disjoint and together are the keys of the arguments other than \<open>__proto__\<close>: every
  such key is in exactly one of the three, with its value, and the key \<open>__proto__\<close> is
  in none, as the assignment \<open>o['__proto__'] = v\<close> to an object literal stores no
  property. The keys of an object are distinct, which is the hypothesis on the entries.
  Where the template contains \<open>{id}\<close> and no key before \<open>id\<close> contains a brace, the
  argument \<open>id\<close> is a path parameter and neither a query nor a body parameter.
\<close>

theorem classify_partition:
  assumes "distinct (map fst args)" and "classify P u m args = Inr ps"
  shows "keys (pathParams ps) \<union> keys (queryParams ps) \<union> keys (bodyParams ps)
           = keys args - {''__proto__''}
       \<and> keys (pathParams ps) \<inter> keys (queryParams ps) = {}
       \<and> keys (pathParams ps) \<inter> keys (bodyParams ps) = {}
       \<and> keys (queryParams ps) \<inter> keys (bodyParams ps) = {}
       \<and> set (pathParams ps) \<union> set (queryParams ps) \<union> set (bodyParams ps)
           = {kv \<in> set args. fst kv \<noteq> ''__proto__''}
       \<and> (\<forall>pre v post. args = pre @ (''id'', v) # post \<and> str_includes ''{id}'' u
              \<and> (\<forall>k \<in> keys pre. brace_free k) \<longrightarrow>
            (''id'', v) \<in> set (pathParams ps)
            \<and> ''id'' \<notin> keys (queryParams ps) \<and> ''id'' \<notin> keys (bodyParams ps))"
proof -
  let ?init = "\<lparr>requestUrl = u, pathParams = [], queryParams = [], bodyParams = [],
                queryPrototype = None\<rparr> :: 'a params"
  have whole: "separate_params P m ?init args = Inr ps"
    using assms(2) by (simp add: classify_def)
  have p_init: "partitioned ?init []"
    by (simp add: partitioned_def)
  have d_all: "distinct (map fst ([] @ args))"
    using assms(1) by simp
  have p: "partitioned ps ([] @ args)"
    using whole p_init d_all by (rule separate_params_partitioned)
  then have d: "distinct (map fst (pathParams ps) @ map fst (queryParams ps) @ map fst (bodyParams ps))"
    by (simp add: partitioned_def)
  note apart = distinct_keys_apart [OF d]
  have entries: "set (pathParams ps) \<union> set (queryParams ps) \<union> set (bodyParams ps)
           = {kv \<in> set args. fst kv \<noteq> ''__proto__''}"
    using p by (simp add: partitioned_def set_stored)
  have cover: "keys (pathParams ps) \<union> keys (queryParams ps) \<union> keys (bodyParams ps)
           = keys args - {''__proto__''}"
    using partitioned_keys [OF p] by (simp add: keys_stored)
  have path: "\<forall>pre v post. args = pre @ (''id'', v) # post \<and> str_includes ''{id}'' u
              \<and> (\<forall>k \<in> keys pre. brace_free k) \<longrightarrow>
            (''id'', v) \<in> set (pathParams ps)
            \<and> ''id'' \<notin> keys (queryParams ps) \<and> ''id'' \<notin> keys (bodyParams ps)"
  proof (intro allI impI)
    fix pre v post
    assume a: "args = pre @ (''id'', v) # post \<and> str_includes ''{id}'' u
              \<and> (\<forall>k \<in> keys pre. brace_free k)"
    then have args: "args = pre @ (''id'', v) # post" and inc: "str_includes (placeholder ''id'') u"
      and bf: "\<forall>k \<in> keys pre. brace_free k"
      by (simp_all add: placeholder_def)
    from whole obtain ps0 where s0: "separate_params P m ?init pre = Inr ps0"
      and rest: "separate_params P m ps0 ((''id'', v) # post) = Inr ps"
      unfolding args separate_params_append
      by (cases "separate_params P m ?init pre") simp_all
    from rest obtain ps1 where s1: "separate_param P m ps0 (''id'', v) = Inr ps1"
      and s2: "separate_params P m ps1 post = Inr ps"
      by (cases "separate_param P m ps0 (''id'', v)") simp_all
    have before: "''id'' \<notin> keys pre" and later: "''id'' \<notin> keys post"
      using assms(1) unfolding args keys_def by simp_all
    have "str_includes (placeholder ''id'') (requestUrl ps0)"
      using s0 _ bf before
    proof (rule separate_params_survives)
      show "brace_free ''id''" by (simp add: brace_free_def)
      show "str_includes (placeholder ''id'') (requestUrl ?init)" using inc by simp
    qed
    then have here: "str_includes (placeholder ''id'') (requestUrl ps0)" .
    have "partitioned ps0 ([] @ pre)"
      using s0 p_init by (rule separate_params_partitioned) (use assms(1) args in simp)
    then have "keys (pathParams ps0) \<union> keys (queryParams ps0) \<union> keys (bodyParams ps0)
                 = keys pre - {''__proto__''}"
      using partitioned_keys [of ps0 "[] @ pre"] by (simp add: keys_stored)
    with before have fresh:
      "''id'' \<notin> keys (pathParams ps0) \<union> keys (queryParams ps0) \<union> keys (bodyParams ps0)"
      by simp
    have "(''id'', v) \<in> set (pathParams ps1)"
      using separate_param_step [OF s1 fresh] here by auto
    then have in_path: "(''id'', v) \<in> set (pathParams ps)"
      using separate_params_keeps [OF s2 later, of v] by blast
    then have "''id'' \<in> keys (pathParams ps)"
      by (rule in_keys)
    with apart in_path
    show "(''id'', v) \<in> set (pathParams ps)
            \<and> ''id'' \<notin> keys (queryParams ps) \<and> ''id'' \<notin> keys (bodyParams ps)"
      by auto
  qed
  from cover apart entries path show ?thesis
    by blast
qed

theorem classify_partition_witness:
  "distinct (map fst [(''__proto__'', JStr ''x''), (''id'', JStr ''42''), (''limit'', JNum ''10'')])
   \<and> classify ascii_platform ''https://x/users/{id}'' ''GET''
         [(''__proto__'', JStr ''x''), (''id'', JStr ''42''), (''limit'', JNum ''10'')]
       = Inr \<lparr>requestUrl = ''https://x/users/42'', pathParams = [(''id'', JStr ''42'')],
              queryParams = [(''limit'', JNum ''10'')], bodyParams = [], queryPrototype = None\<rparr>
   \<and> keys [(''id'', JStr ''42'')] \<union> keys [(''limit'', JNum ''10'')] \<union> keys []
       = keys [(''__proto__'', JStr ''x''), (''id'', JStr ''42''), (''limit'', JNum ''10'' :: string json)]
          - {''__proto__''}
   \<and> keys [(''id'', JStr ''42'' :: string json)] \<inter> keys [(''limit'', JNum ''10'' :: string json)] = {}
   \<and> (''id'', JStr ''42'') \<in> set [(''id'', JStr ''42'' :: string json)]"
proof -
  have h1: "distinct (map fst [(''__proto__'', JStr ''x''), (''id'', JStr ''42''),
                               (''limit'', JNum ''10'' :: string json)])"
    by simp
  have h2: "classify ascii_platform ''https://x/users/{id}'' ''GET''
         [(''__proto__'', JStr ''x''), (''id'', JStr ''42''), (''limit'', JNum ''10'')]
       = Inr \<lparr>requestUrl = ''https://x/users/42'', pathParams = [(''id'', JStr ''42'')],
              queryParams = [(''limit'', JNum ''10'')], bodyParams = [], queryPrototype = None\<rparr>"
    by (simp add: classify_eval)
  from classify_partition [OF h1 h2] h1 h2 show ?thesis
    by simp
qed

text \<open>
  C3 as stated fails on two inputs. Of the arguments \<open>{"__proto__":"x","a":"1"}\<close> the
  key \<open>__proto__\<close> is in none of the three objects. And the template
  \<open>https://x/{{id}}\<close> contains \<open>{id}\<close>, yet with the arguments
  \<open>{"{id}":"v","id":"42"}\<close> and the method \<open>GET\<close> the first substitution takes the
  placeholder away and \<open>id\<close> is a query parameter.
\<close>

theorem classify_loses_proto_and_id:
  "classify ascii_platform ''https://x/items'' ''GET''
     [(''__proto__'', JStr ''x''), (''a'', JStr ''1'')]
     = Inr \<lparr>requestUrl = ''https://x/items'', pathParams = [],
            queryParams = [(''a'', JStr ''1'')], bodyParams = [], queryPrototype = None\<rparr>
   \<and> str_includes ''{id}'' ''https://x/{{id}}''
   \<and> classify ascii_platform ''https://x/{{id}}'' ''GET''
       [(''{id}'', JStr ''v''), (''id'', JStr ''42'')]
     = Inr \<lparr>requestUrl = ''https://x/v'', pathParams = [(''{id}'', JStr ''v'')],
            queryParams = [(''id'', JStr ''42'')], bodyParams = [], queryPrototype = None\<rparr>"
  by (simp add: classify_eval)

text \<open>
  C5, as amended. Every argument \<open>key\<close> other than \<open>__proto__\<close> is tested against the
  URL as the arguments before it have resolved it (for the first argument, the template
  itself). If that URL contains \<open>{key}\<close> the argument is a path parameter, whatever the
  method, and neither a query nor a body parameter. Otherwise it is a query parameter
  and nothing else when the method is \<open>GET\<close> or \<open>DELETE\<close>, and a body parameter and
  nothing else for any other method, \<open>POST\<close> among them. The key \<open>__proto__\<close> is in
  none of the three objects, whatever the URL and the method.
\<close>

theorem classify_by_resolved_url:
  assumes "distinct (map fst (pre @ (k, v) # post))"
    and "classify P u m (pre @ (k, v) # post) = Inr ps"
    and "k \<noteq> ''__proto__''"
  shows "(\<exists>ps0. classify P u m pre = Inr ps0
           \<and> (pre = [] \<longrightarrow> requestUrl ps0 = u)
           \<and> (if str_includes (placeholder k) (requestUrl ps0) then
                  (k, v) \<in> set (pathParams ps)
                  \<and> k \<notin> keys (queryParams ps) \<and> k \<notin> keys (bodyParams ps)
                else if m = ''GET'' \<or> m = ''DELETE'' then
                  (k, v) \<in> set (queryParams ps)
                  \<and> k \<notin> keys (pathParams ps) \<and> k \<notin> keys (bodyParams ps)
                else
                  (k, v) \<in> set (bodyParams ps)
                  \<and> k \<notin> keys (pathParams ps) \<and> k \<notin> keys (queryParams ps)))
       \<and> ''__proto__'' \<notin> keys (pathParams ps) \<union> keys (queryParams ps) \<union> keys (bodyParams ps)"
proof -
  let ?init = "\<lparr>requestUrl = u, pathParams = [], queryParams = [], bodyParams = [],
                queryPrototype = None\<rparr> :: 'a params"
  have whole: "separate_params P m ?init (pre @ (k, v) # post) = Inr ps"
    using assms(2) by (simp add: classify_def)
  then obtain ps0 where s0: "separate_params P m ?init pre = Inr ps0"
    and rest: "separate_params P m ps0 ((k, v) # post) = Inr ps"
    unfolding separate_params_append
    by (cases "separate_params P m ?init pre") simp_all
  from rest obtain ps1 where s1: "separate_param P m ps0 (k, v) = Inr ps1"
    and s2: "separate_params P m ps1 post = Inr ps"
    by (cases "separate_param P m ps0 (k, v)") simp_all
  have p_init: "partitioned ?init []"
    by (simp add: partitioned_def)
  have d_pre: "distinct (map fst ([] @ pre))"
    using assms(1) by simp
  have "partitioned ps0 ([] @ pre)"
    using s0 p_init d_pre by (rule separate_params_partitioned)
  then have k0: "keys (pathParams ps0) \<union> keys (queryParams ps0) \<union> keys (bodyParams ps0)
                   = keys pre - {''__proto__''}"
    using partitioned_keys [of ps0 "[] @ pre"] by (simp add: keys_stored)
  have "k \<notin> keys pre"
    using assms(1) unfolding keys_def by simp
  then have fresh: "k \<notin> keys (pathParams ps0) \<union> keys (queryParams ps0) \<union> keys (bodyParams ps0)"
    unfolding k0 by simp
  have later: "k \<notin> keys post"
    using assms(1) unfolding keys_def by simp
  have d_all: "distinct (map fst ([] @ (pre @ (k, v) # post)))"
    using assms(1) by simp
  have p: "partitioned ps ([] @ (pre @ (k, v) # post))"
    using whole p_init d_all by (rule separate_params_partitioned)
  then have d: "distinct (map fst (pathParams ps) @ map fst (queryParams ps) @ map fst (bodyParams ps))"
    by (simp add: partitioned_def)
  note apart = distinct_keys_apart [OF d]
  note keeps = separate_params_keeps [OF s2 later, of v]
  have st: "stored [(k, v)] = [(k, v)]"
    using assms(3) by simp
  have first: "pre = [] \<longrightarrow> requestUrl ps0 = u"
  proof
    assume "pre = []"
    with s0 have "ps0 = ?init" by simp
    then show "requestUrl ps0 = u" by simp
  qed
  have goal: "if str_includes (placeholder k) (requestUrl ps0) then
                  (k, v) \<in> set (pathParams ps)
                  \<and> k \<notin> keys (queryParams ps) \<and> k \<notin> keys (bodyParams ps)
                else if m = ''GET'' \<or> m = ''DELETE'' then
                  (k, v) \<in> set (queryParams ps)
                  \<and> k \<notin> keys (pathParams ps) \<and> k \<notin> keys (bodyParams ps)
                else
                  (k, v) \<in> set (bodyParams ps)
                  \<and> k \<notin> keys (pathParams ps) \<and> k \<notin> keys (queryParams ps)"
  proof (cases "str_includes (placeholder k) (requestUrl ps0)")
    case True
    then have "(k, v) \<in> set (pathParams ps1)"
      using separate_param_step [OF s1 fresh] unfolding st by auto
    then have "(k, v) \<in> set (pathParams ps)"
      using keeps by blast
    then have "k \<in> keys (pathParams ps)"
      by (rule in_keys)
    with apart \<open>(k, v) \<in> set (pathParams ps)\<close> True show ?thesis
      by auto
  next
    case False
    show ?thesis
    proof (cases "m = ''GET'' \<or> m = ''DELETE''")
      case True
      then have "(k, v) \<in> set (queryParams ps1)"
        using False separate_param_step [OF s1 fresh] unfolding st by auto
      then have q: "(k, v) \<in> set (queryParams ps)"
        using keeps by blast
      then have "k \<in> keys (queryParams ps)"
        by (rule in_keys)
      with apart q True False show ?thesis
        by auto
    next
      case notget: False
      then have "(k, v) \<in> set (bodyParams ps1)"
        using False separate_param_step [OF s1 fresh] unfolding st by auto
      then have b: "(k, v) \<in> set (bodyParams ps)"
        using keeps by blast
      then have "k \<in> keys (bodyParams ps)"
        by (rule in_keys)
      with apart b notget False show ?thesis
        by auto
    qed
  qed
  have "classify P u m pre = Inr ps0"
    using s0 by (simp add: classify_def)
  with first goal have 1: "\<exists>ps0. classify P u m pre = Inr ps0
           \<and> (pre = [] \<longrightarrow> requestUrl ps0 = u)
           \<and> (if str_includes (placeholder k) (requestUrl ps0) then
                  (k, v) \<in> set (pathParams ps)
                  \<and> k \<notin> keys (queryParams ps) \<and> k \<notin> keys (bodyParams ps)
                else if m = ''GET'' \<or> m = ''DELETE'' then
                  (k, v) \<in> set (queryParams ps)
                  \<and> k \<notin> keys (pathParams ps) \<and> k \<notin> keys (bodyParams ps)
                else
                  (k, v) \<in> set (bodyParams ps)
                  \<and> k \<notin> keys (pathParams ps) \<and> k \<notin> keys (queryParams ps))"
    by blast
  have 2: "''__proto__'' \<notin> keys (pathParams ps) \<union> keys (queryParams ps) \<union> keys (bodyParams ps)"
    unfolding partitioned_keys [OF p] keys_stored by simp
  from 1 2 show ?thesis ..
qed

text \<open>
  C5 as stated fails where an earlier substitution creates the placeholder: the template
  \<open>https://x/{{a}}\<close> does not contain \<open>{id}\<close>, the method is \<open>GET\<close>, and after
  \<open>a = "id"\<close> has been substituted the argument \<open>id\<close> is a path parameter and not a
  query parameter.
\<close>

theorem classify_created_placeholder:
  "\<not> str_includes (placeholder ''id'') ''https://x/{{a}}''
   \<and> classify ascii_platform ''https://x/{{a}}'' ''GET''
         [(''a'', JStr ''id''), (''id'', JStr ''7'')]
       = Inr \<lparr>requestUrl = ''https://x/7'',
              pathParams = [(''a'', JStr ''id''), (''id'', JStr ''7'')],
              queryParams = [], bodyParams = [], queryPrototype = None\<rparr>"
  by (simp add: classify_eval)

theorem classify_by_resolved_url_witness:
  "distinct (map fst ([(''id'', JStr ''42'')] @ (''name'', JStr ''Ann'') # [(''__proto__'', JNull)]))
   \<and> classify ascii_platform ''https://x/users/{id}'' ''POST''
         ([(''id'', JStr ''42'')] @ (''name'', JStr ''Ann'') # [(''__proto__'', JNull)])
       = Inr \<lparr>requestUrl = ''https://x/users/42'', pathParams = [(''id'', JStr ''42'')],
              queryParams = [], bodyParams = [(''name'', JStr ''Ann'')],
              queryPrototype = None\<rparr>
   \<and> ''name'' \<noteq> ''__proto__''
   \<and> (\<exists>ps0. classify ascii_platform ''https://x/users/{id}'' ''POST'' [(''id'', JStr ''42'')] = Inr ps0
          \<and> \<not> str_includes (placeholder ''name'') (requestUrl ps0)
          \<and> (''name'', JStr ''Ann'') \<in> set [(''name'', JStr ''Ann'' :: string json)]
          \<and> ''name'' \<notin> keys [(''id'', JStr ''42'' :: string json)]
          \<and> ''name'' \<notin> keys ([] :: string obj))
   \<and> ''__proto__'' \<notin> keys [(''id'', JStr ''42'' :: string json)] \<union> keys ([] :: string obj)
         \<union> keys [(''name'', JStr ''Ann'' :: string json)]"
proof -
  have h1: "distinct (map fst ([(''id'', JStr ''42'')] @ (''name'', JStr ''Ann'' :: string json)
                                 # [(''__proto__'', JNull)]))"
    by simp
  have h2: "classify ascii_platform ''https://x/users/{id}'' ''POST''
         ([(''id'', JStr ''42'')] @ (''name'', JStr ''Ann'') # [(''__proto__'', JNull)])
       = Inr \<lparr>requestUrl = ''https://x/users/42'', pathParams = [(''id'', JStr ''42'')],
              queryParams = [], bodyParams = [(''name'', JStr ''Ann'')],
              queryPrototype = None\<rparr>"
    by (simp add: classify_eval)
  have h3: "''name'' \<noteq> ''__proto__''"
    by simp
  have h4: "classify ascii_platform ''https://x/users/{id}'' ''POST'' [(''id'', JStr ''42'')]
       = Inr \<lparr>requestUrl = ''https://x/users/42'', pathParams = [(''id'', JStr ''42'')],
              queryParams = [], bodyParams = [], queryPrototype = None\<rparr>"
    by (simp add: classify_eval)
  have h5: "\<not> str_includes (placeholder ''name'') ''https://x/users/42''"
    by (simp add: placeholder_def)
  from classify_by_resolved_url [OF h1 h2 h3] h1 h2 h4 h5 show ?thesis
    by simp
qed

subsection \<open>The request and the response\<close>

lemma decimal_403: "decimal 403 = ''403''"
  by code_simp

text \<open>
  C6. When the response to the request of a tool call has a status that is not a
  success, \<open>callTool\<close> throws an error whose message holds the status code in decimal
  and the text of the response body as it is: \<open>API error (403): not allowed\<close> for a
  403 with the body \<open>not allowed\<close>.
\<close>

theorem callTool_api_error:
  assumes "build_request P key tool args = Inr req"
    and "fetch req = Inr r"
    and "\<not> ok r"
  shows "callTool P fetch key tool args
           = Some (Inl (Error (''API error ('' @ decimal (status r) @ ''): '' @ body_text r)))"
  using assms by (simp add: callTool_def respond_def)

lemma build_get_user:
  "build_request P key get_user [(''id'', JStr ''42'')] = Inr (get_user_request key)"
  by (simp add: build_request_def get_user_def get_user_request_def classify_eval)

theorem callTool_api_error_witness:
  "callTool ascii_platform (\<lambda>req. Inr forbidden) ''pk_1'' get_user [(''id'', JStr ''42'')]
     = Some (Inl (Error ''API error (403): not allowed''))"
proof -
  have h3: "\<not> ok forbidden" by (simp add: forbidden_def)
  have "(\<lambda>req. Inr forbidden :: error + string json response) (get_user_request ''pk_1'') = Inr forbidden"
    by simp
  from callTool_api_error [OF build_get_user this h3]
  show ?thesis by (simp add: forbidden_def decimal_403)
qed

subsection \<open>The server\<close>

text \<open>
  C7. For a tool name that no tool of the manifest has (the lookup compares names for
  equality), the handler of \<open>tools/call\<close> throws the error \<open>Tool '...' not found\<close> and
  leaves the server, with its manifest, as it was. No call changes the server.
\<close>

theorem tools_call_not_found:
  assumes "server_manifest srv = Some m" and "tools m = Some (ToolList ts)"
    and "toolName \<notin> name ` set ts"
  shows "tools_call P fetch srv toolName arguments = Some (Inl (tool_not_found toolName), srv)
       \<and> (\<forall>r srv'. tools_call P fetch srv t a = Some (r, srv') \<longrightarrow> srv' = srv)"
proof -
  have "find (\<lambda>t. name t = toolName) ts = None"
    using assms(3) by (auto simp: find_None_iff)
  then have 1: "tools_call P fetch srv toolName arguments = Some (Inl (tool_not_found toolName), srv)"
    using assms(1,2) by (simp add: tools_call_def)
  have 2: "\<forall>r srv'. tools_call P fetch srv t a = Some (r, srv') \<longrightarrow> srv' = srv"
    by (auto simp: tools_call_def Let_def split: option.splits sum.splits tools_value.splits not_array.splits)
  from 1 2 show ?thesis by blast
qed

theorem tools_call_not_found_witness:
  "tools_call ascii_platform (\<lambda>req. Inr forbidden) demo_server ''get_users'' None
     = Some (Inl (Error ''Tool 'get_users' not found''), demo_server)"
proof -
  have h1: "server_manifest demo_server = Some demo_manifest"
    by (simp add: demo_server_def)
  have h2: "tools demo_manifest = Some (ToolList [get_user])"
    by (simp add: demo_manifest_def)
  have h3: "''get_users'' \<notin> name ` set [get_user]"
    by (simp add: get_user_def)
  from tools_call_not_found [OF h1 h2 h3, where P = ascii_platform
      and fetch = "\<lambda>req. Inr forbidden" and arguments = None]
  show ?thesis
    by (simp add: tool_not_found_def)
qed

text \<open>
  C8, as amended. \<open>fetchManifest\<close> fails, with the error \<open>Could not connect to ...\<close>
  that carries the cause, when the endpoint cannot be reached, when the status is not a
  success, and when the body is not JSON. On any other response it succeeds and caches
  the manifest, whatever its tools. The check on the tools is in \<open>start\<close>, right after
  the fetch, and it is the guard
  \<open>!this.manifest || !this.manifest.tools || this.manifest.tools.length === 0\<close>:
  \<open>start\<close> fails with \<open>No tools found in MCP manifest\<close> when the manifest is \<open>null\<close>,
  when \<open>tools\<close> is absent or falsy (\<open>null\<close>, \<open>false\<close>, zero, the empty string), and
  when the length of \<open>tools\<close> is zero (the empty array, an object whose property
  \<open>length\<close> is zero); on every other manifest \<open>start\<close> goes on. A non-empty array
  passes the guard, and so does a value of \<open>tools\<close> that is no array and holds no tool:
  \<open>true\<close>, a number other than zero, a non-empty string, an object such as \<open>{}\<close>.
\<close>

theorem fetchManifest_and_start:
  "(fetch (manifest_url srv) = Inl e \<longrightarrow>
      fetchManifest fetch srv = (Inl (could_not_connect srv (message e)), srv))
   \<and> (fetch (manifest_url srv) = Inr r \<and> \<not> ok r \<longrightarrow>
      fetchManifest fetch srv
        = (Inl (could_not_connect srv
             (''Failed to fetch manifest: '' @ decimal (status r) @ '' '' @ statusText r)), srv))
   \<and> (fetch (manifest_url srv) = Inr r \<and> ok r \<and> body_json r = Inl e \<longrightarrow>
      fetchManifest fetch srv = (Inl (could_not_connect srv (message e)), srv))
   \<and> (fetch (manifest_url srv) = Inr r \<and> ok r \<and> body_json r = Inr mf \<longrightarrow>
      fetchManifest fetch srv = (Inr mf, srv\<lparr>server_manifest := mf\<rparr>)
      \<and> start P fetch srv =
           (if no_tools P mf then (Inl (Error ''No tools found in MCP manifest''), srv\<lparr>server_manifest := mf\<rparr>)
            else (Inr (), srv\<lparr>server_manifest := mf\<rparr>)))
   \<and> (start P fetch srv = (Inr (), srv') \<longrightarrow> \<not> no_tools P (server_manifest srv'))
   \<and> no_tools P None
   \<and> (tools m = None \<longrightarrow> no_tools P (Some m))
   \<and> (tools m = Some (ToolList ts) \<longrightarrow> no_tools P (Some m) = (ts = []))
   \<and> (tools m = Some (NotArray NullValue) \<longrightarrow> no_tools P (Some m))
   \<and> (tools m = Some (NotArray (BoolValue b)) \<longrightarrow> no_tools P (Some m) = (\<not> b))
   \<and> (tools m = Some (NotArray (NumValue n)) \<longrightarrow> no_tools P (Some m) = num_is_zero P n)
   \<and> (tools m = Some (NotArray (StrValue s)) \<longrightarrow> no_tools P (Some m) = (s = []))
   \<and> (tools m = Some (NotArray (ObjValue kvs)) \<longrightarrow>
        no_tools P (Some m) = (\<exists>z. map_of kvs ''length'' = Some (JNum z) \<and> num_is_zero P z))"
proof -
  have 1: "fetch (manifest_url srv) = Inl e \<longrightarrow>
      fetchManifest fetch srv = (Inl (could_not_connect srv (message e)), srv)"
    by (simp add: fetchManifest_def)
  have 2: "fetch (manifest_url srv) = Inr r \<and> \<not> ok r \<longrightarrow>
      fetchManifest fetch srv
        = (Inl (could_not_connect srv
             (''Failed to fetch manifest: '' @ decimal (status r) @ '' '' @ statusText r)), srv)"
    by (simp add: fetchManifest_def)
  have 3: "fetch (manifest_url srv) = Inr r \<and> ok r \<and> body_json r = Inl e \<longrightarrow>
      fetchManifest fetch srv = (Inl (could_not_connect srv (message e)), srv)"
    by (simp add: fetchManifest_def)
  have 4: "fetch (manifest_url srv) = Inr r \<and> ok r \<and> body_json r = Inr mf \<longrightarrow>
      fetchManifest fetch srv = (Inr mf, srv\<lparr>server_manifest := mf\<rparr>)
      \<and> start P fetch srv =
           (if no_tools P mf then (Inl (Error ''No tools found in MCP manifest''), srv\<lparr>server_manifest := mf\<rparr>)
            else (Inr (), srv\<lparr>server_manifest := mf\<rparr>))"
    by (simp add: fetchManifest_def start_def)
  have 5: "start P fetch srv = (Inr (), srv') \<longrightarrow> \<not> no_tools P (server_manifest srv')"
  proof
    assume s: "start P fetch srv = (Inr (), srv')"
    obtain res s1 where f: "fetchManifest fetch srv = (res, s1)"
      by (cases "fetchManifest fetch srv")
    from s f show "\<not> no_tools P (server_manifest srv')"
      by (auto simp: start_def split: sum.splits if_splits)
  qed
  have 6: "no_tools P None"
    by (simp add: no_tools_def)
  have 7: "tools m = None \<longrightarrow> no_tools P (Some m)"
    by (simp add: no_tools_def)
  have 8: "tools m = Some (ToolList ts) \<longrightarrow> no_tools P (Some m) = (ts = [])"
    by (simp add: no_tools_def)
  have 9: "tools m = Some (NotArray NullValue) \<longrightarrow> no_tools P (Some m)"
    by (simp add: no_tools_def)
  have 10: "tools m = Some (NotArray (BoolValue b)) \<longrightarrow> no_tools P (Some m) = (\<not> b)"
    by (simp add: no_tools_def)
  have 11: "tools m = Some (NotArray (NumValue n)) \<longrightarrow> no_tools P (Some m) = num_is_zero P n"
    by (simp add: no_tools_def)
  have 12: "tools m = Some (NotArray (StrValue s)) \<longrightarrow> no_tools P (Some m) = (s = [])"
    by (simp add: no_tools_def)
  have 13: "tools m = Some (NotArray (ObjValue kvs)) \<longrightarrow>
        no_tools P (Some m) = (\<exists>z. map_of kvs ''length'' = Some (JNum z) \<and> num_is_zero P z)"
    by (simp add: no_tools_def split: option.splits json.splits)
  from 1 2 3 4 5 show ?thesis
    using 6 7 8 9 10 11 12 13 by (intro conjI)
qed

theorem fetchManifest_and_start_witness:
  "fetchManifest (\<lambda>u. Inl (TypeError ''fetch failed'')) server0
     = (Inl (Error ''Could not connect to https://x/mcp.json - fetch failed''), server0)
   \<and> fetchManifest (\<lambda>u. Inr ((manifest_response (Inr None))\<lparr>ok := False, status := 404, statusText := ''Not Found''\<rparr>)) server0
     = (Inl (Error ''Could not connect to https://x/mcp.json - Failed to fetch manifest: 404 Not Found''), server0)
   \<and> fetchManifest (\<lambda>u. Inr (manifest_response (Inl (SyntaxError ''Unexpected token'')))) server0
     = (Inl (Error ''Could not connect to https://x/mcp.json - Unexpected token''), server0)
   \<and> start ascii_platform (\<lambda>u. Inr (manifest_response (Inr None))) server0
     = (Inl (Error ''No tools found in MCP manifest''), server0)
   \<and> start ascii_platform (\<lambda>u. Inr (manifest_response (Inr (Some empty_manifest)))) server0
     = (Inl (Error ''No tools found in MCP manifest''), server0\<lparr>server_manifest := Some empty_manifest\<rparr>)
   \<and> start ascii_platform (\<lambda>u. Inr (manifest_response (Inr (Some demo_manifest)))) server0
     = (Inr (), server0\<lparr>server_manifest := Some demo_manifest\<rparr>)
   \<and> \<not> no_tools ascii_platform (Some object_tools_manifest)
   \<and> start ascii_platform (\<lambda>u. Inr (manifest_response (Inr (Some object_tools_manifest)))) server0
     = (Inr (), server0\<lparr>server_manifest := Some object_tools_manifest\<rparr>)"
proof -
  have d404: "decimal 404 = ''404''" by code_simp
  have s0: "server0\<lparr>server_manifest := None\<rparr> = server0"
    by (simp add: server0_def new_server_def)
  have b0: "baseUrl server0 = ''https://x''"
    by (simp add: server0_def new_server_def)
  note ev = manifest_response_def could_not_connect_def manifest_url_def d404 b0
  have t1: "no_tools ascii_platform (Some empty_manifest)"
    by (simp add: no_tools_def empty_manifest_def)
  have t2: "\<not> no_tools ascii_platform (Some demo_manifest)"
    by (simp add: no_tools_def demo_manifest_def)
  have t3: "tools object_tools_manifest = Some (NotArray (ObjValue []))"
    by (simp add: object_tools_manifest_def)
  have a: "fetchManifest (\<lambda>u. Inl (TypeError ''fetch failed'')) server0
     = (Inl (Error ''Could not connect to https://x/mcp.json - fetch failed''), server0)"
    using fetchManifest_and_start [where fetch = "\<lambda>u. Inl (TypeError ''fetch failed'')"
        and srv = server0 and e = "TypeError ''fetch failed''", THEN conjunct1]
    by (simp add: ev)
  have b: "fetchManifest (\<lambda>u. Inr ((manifest_response (Inr None))\<lparr>ok := False, status := 404, statusText := ''Not Found''\<rparr>)) server0
     = (Inl (Error ''Could not connect to https://x/mcp.json - Failed to fetch manifest: 404 Not Found''), server0)"
    using fetchManifest_and_start [where fetch = "\<lambda>u. Inr ((manifest_response (Inr None))\<lparr>ok := False, status := 404, statusText := ''Not Found''\<rparr>)"
        and srv = server0
        and r = "(manifest_response (Inr None))\<lparr>ok := False, status := 404, statusText := ''Not Found''\<rparr>",
        THEN conjunct2, THEN conjunct1]
    by (simp add: ev)
  have c: "fetchManifest (\<lambda>u. Inr (manifest_response (Inl (SyntaxError ''Unexpected token'')))) server0
     = (Inl (Error ''Could not connect to https://x/mcp.json - Unexpected token''), server0)"
    using fetchManifest_and_start [where fetch = "\<lambda>u. Inr (manifest_response (Inl (SyntaxError ''Unexpected token'')))"
        and srv = server0 and e = "SyntaxError ''Unexpected token''"
        and r = "manifest_response (Inl (SyntaxError ''Unexpected token''))",
        THEN conjunct2, THEN conjunct2, THEN conjunct1]
    by (simp add: ev)
  have d: "start ascii_platform (\<lambda>u. Inr (manifest_response (Inr None))) server0
     = (Inl (Error ''No tools found in MCP manifest''), server0)"
    using fetchManifest_and_start [where srv = server0 and P = ascii_platform
        and fetch = "\<lambda>u. Inr (manifest_response (Inr None))"
        and r = "manifest_response (Inr None)" and mf = None,
        THEN conjunct2, THEN conjunct2, THEN conjunct2, THEN conjunct1]
    by (simp add: ev s0 no_tools_def)
  have e: "start ascii_platform (\<lambda>u. Inr (manifest_response (Inr (Some empty_manifest)))) server0
     = (Inl (Error ''No tools found in MCP manifest''), server0\<lparr>server_manifest := Some empty_manifest\<rparr>)"
    using fetchManifest_and_start [where srv = server0 and P = ascii_platform
        and fetch = "\<lambda>u. Inr (manifest_response (Inr (Some empty_manifest)))"
        and r = "manifest_response (Inr (Some empty_manifest))" and mf = "Some empty_manifest",
        THEN conjunct2, THEN conjunct2, THEN conjunct2, THEN conjunct1] t1
    by (simp add: ev)
  have f: "start ascii_platform (\<lambda>u. Inr (manifest_response (Inr (Some demo_manifest)))) server0
     = (Inr (), server0\<lparr>server_manifest := Some demo_manifest\<rparr>)"
    using fetchManifest_and_start [where srv = server0 and P = ascii_platform
        and fetch = "\<lambda>u. Inr (manifest_response (Inr (Some demo_manifest)))"
        and r = "manifest_response (Inr (Some demo_manifest))" and mf = "Some demo_manifest",
        THEN conjunct2, THEN conjunct2, THEN conjunct2, THEN conjunct1] t2
    by (simp add: ev)
  have g: "\<not> no_tools ascii_platform (Some object_tools_manifest)"
    using fetchManifest_and_start [where P = ascii_platform and m = object_tools_manifest
        and kvs = "[]", THEN conjunct2, THEN conjunct2, THEN conjunct2, THEN conjunct2,
        THEN conjunct2, THEN conjunct2, THEN conjunct2, THEN conjunct2, THEN conjunct2,
        THEN conjunct2, THEN conjunct2, THEN conjunct2] t3
    by simp
  have h: "start ascii_platform (\<lambda>u. Inr (manifest_response (Inr (Some object_tools_manifest)))) server0
     = (Inr (), server0\<lparr>server_manifest := Some object_tools_manifest\<rparr>)"
    using fetchManifest_and_start [where srv = server0 and P = ascii_platform
        and fetch = "\<lambda>u. Inr (manifest_response (Inr (Some object_tools_manifest)))"
        and r = "manifest_response (Inr (Some object_tools_manifest))"
        and mf = "Some object_tools_manifest",
        THEN conjunct2, THEN conjunct2, THEN conjunct2, THEN conjunct1] g
    by (simp add: ev)
  from a b c d e f g h show ?thesis
    by (intro conjI)
qed

text \<open>
  C8 as stated fails for \<open>fetchManifest\<close>: on a manifest with an empty list of tools it
  succeeds, and the manifest is cached.
\<close>

theorem fetchManifest_caches_empty_manifest:
  "fetchManifest (\<lambda>u. Inr (manifest_response (Inr (Some empty_manifest)))) server0
     = (Inr (Some empty_manifest), server0\<lparr>server_manifest := Some empty_manifest\<rparr>)
   \<and> tools empty_manifest = Some (ToolList [])"
  by (simp add: fetchManifest_def manifest_response_def empty_manifest_def)

text \<open>
  C9. With the manifest of the scenario, the call of \<open>get_user\<close> with \<open>{id: "42"}\<close>
  passes to \<open>fetch\<close> the request \<open>GET https://x/users/42\<close>, whose URL has no query
  string and which has no body. For every tool and arguments, the URL of the request is
  the resolved URL when there is no query parameter and the resolved URL, \<open>?\<close> and the
  serialised query parameters otherwise, and the request has a body, the serialised
  body parameters, exactly when the method is \<open>POST\<close>, \<open>PUT\<close> or \<open>PATCH\<close> and there
  is a body parameter.
\<close>

theorem get_user_request_issued:
  "tools_call P fetch demo_server ''get_user'' (Some [(''id'', JStr ''42'')])
     = (case fetch (get_user_request (apiKey demo_server)) of
          Inl e \<Rightarrow> Some (Inl e, demo_server)
        | Inr r \<Rightarrow>
            (case respond P r of
               None \<Rightarrow> None
             | Some (Inl e) \<Rightarrow> Some (Inl e, demo_server)
             | Some (Inr x) \<Rightarrow> Some (Inr (JSON_stringify_indented P x), demo_server)))
   \<and> req_url (get_user_request k) = ''https://x/users/42''
   \<and> req_method (get_user_request k) = ''GET''
   \<and> req_body (get_user_request k) = None
   \<and> (build_request P key tool args = Inr req \<longrightarrow>
        (\<exists>ps. classify P (handler_url (handler tool)) (handler_method (handler tool)) args = Inr ps
           \<and> (if queryParams ps = [] then req_url req = requestUrl ps
               else \<exists>qs. URLSearchParams_toString P (queryParams ps) (queryPrototype ps) = Inr qs
                      \<and> req_url req = requestUrl ps @ ''?'' @ qs)
           \<and> req_body req =
               (if handler_method (handler tool) \<in> {''POST'', ''PUT'', ''PATCH''} \<and> bodyParams ps \<noteq> []
                then Some (JSON_stringify P (JObj (bodyParams ps))) else None)))"
proof -
  have get_user_name: "name (get_user :: string tool) = ''get_user''"
    by (simp add: get_user_def)
  have 1: "tools_call P fetch demo_server ''get_user'' (Some [(''id'', JStr ''42'')])
     = (case fetch (get_user_request (apiKey demo_server)) of
          Inl e \<Rightarrow> Some (Inl e, demo_server)
        | Inr r \<Rightarrow>
            (case respond P r of
               None \<Rightarrow> None
             | Some (Inl e) \<Rightarrow> Some (Inl e, demo_server)
             | Some (Inr x) \<Rightarrow> Some (Inr (JSON_stringify_indented P x), demo_server)))"
    by (simp add: tools_call_def demo_server_def demo_manifest_def get_user_name callTool_def
        build_get_user split: sum.splits option.splits)
  have 2: "build_request P key tool args = Inr req \<longrightarrow>
        (\<exists>ps. classify P (handler_url (handler tool)) (handler_method (handler tool)) args = Inr ps
           \<and> (if queryParams ps = [] then req_url req = requestUrl ps
               else \<exists>qs. URLSearchParams_toString P (queryParams ps) (queryPrototype ps) = Inr qs
                      \<and> req_url req = requestUrl ps @ ''?'' @ qs)
           \<and> req_body req =
               (if handler_method (handler tool) \<in> {''POST'', ''PUT'', ''PATCH''} \<and> bodyParams ps \<noteq> []
                then Some (JSON_stringify P (JObj (bodyParams ps))) else None))"
  proof
    assume b: "build_request P key tool args = Inr req"
    then obtain ps where c: "classify P (handler_url (handler tool)) (handler_method (handler tool)) args = Inr ps"
      by (cases "classify P (handler_url (handler tool)) (handler_method (handler tool)) args")
         (simp_all add: build_request_def)
    show "\<exists>ps. classify P (handler_url (handler tool)) (handler_method (handler tool)) args = Inr ps
           \<and> (if queryParams ps = [] then req_url req = requestUrl ps
               else \<exists>qs. URLSearchParams_toString P (queryParams ps) (queryPrototype ps) = Inr qs
                      \<and> req_url req = requestUrl ps @ ''?'' @ qs)
           \<and> req_body req =
               (if handler_method (handler tool) \<in> {''POST'', ''PUT'', ''PATCH''} \<and> bodyParams ps \<noteq> []
                then Some (JSON_stringify P (JObj (bodyParams ps))) else None)"
    proof (cases "queryParams ps = []")
      case True
      with b c show ?thesis
        by (auto simp: build_request_def)
    next
      case False
      with b c obtain qs where "URLSearchParams_toString P (queryParams ps) (queryPrototype ps) = Inr qs"
        by (cases "URLSearchParams_toString P (queryParams ps) (queryPrototype ps)") (simp_all add: build_request_def)
      with b c False show ?thesis
        by (auto simp: build_request_def)
    qed
  qed
  from 1 2 show ?thesis
    by (simp add: get_user_request_def)
qed

theorem get_user_request_issued_witness:
  "build_request ascii_platform ''pk_1'' get_user [(''id'', JStr ''42''), (''limit'', JNum ''10'')]
     = Inr ((get_user_request ''pk_1'')\<lparr>req_url := ''https://x/users/42?limit=10''\<rparr>)
   \<and> build_request ascii_platform ''pk_1'' create_user [(''name'', JStr ''Ann'')]
     = Inr ((get_user_request ''pk_1'')
             \<lparr>req_url := ''https://x/users'', req_method := ''POST'',
              req_body := Some ''{\"name\":\"Ann\"}''\<rparr>)"
proof -
  have q: "build_request ascii_platform ''pk_1'' get_user [(''id'', JStr ''42''), (''limit'', JNum ''10'')]
     = Inr ((get_user_request ''pk_1'')\<lparr>req_url := ''https://x/users/42?limit=10''\<rparr>)"
    by (simp add: build_request_def get_user_def get_user_request_def classify_eval
        URLSearchParams_toString_def form_encode_def ascii_platform_def)
  have b: "build_request ascii_platform ''pk_1'' create_user [(''name'', JStr ''Ann'')]
     = Inr ((get_user_request ''pk_1'')
             \<lparr>req_url := ''https://x/users'', req_method := ''POST'',
              req_body := Some ''{\"name\":\"Ann\"}''\<rparr>)"
    by (simp add: build_request_def create_user_def get_user_request_def classify_eval
        ascii_platform_def quote_def quote_char_def)
  show ?thesis
    using get_user_request_issued [of ascii_platform _ _ "''pk_1''" get_user
        "[(''id'', JStr ''42''), (''limit'', JNum ''10'')]"] q b
    by simp
qed

subsection \<open>Text of the events\<close>

text \<open>
  C10, as amended. For an event that parses as JSON with the type \<open>chunk\<close> or
  \<open>delta\<close>: if \<open>content\<close> is a non-empty string it is appended to the text, whatever
  \<open>text\<close> is; if \<open>content\<close> is absent or the empty string and \<open>text\<close> is a string,
  \<open>text\<close> is appended; if neither is truthy (each is absent, \<open>null\<close>, \<open>false\<close>, zero
  or the empty string) nothing is appended. In each case the event is recorded once.
\<close>

theorem delta_text_appended:
  assumes "JSON_parse P d = Inr parsed" and "d \<noteq> ''[DONE]''"
    and "get_prop parsed ''type'' = Inr (Some (JStr ty))" and "ty = ''chunk'' \<or> ty = ''delta''"
  shows "(field parsed ''content'' = Some (JStr c) \<and> c \<noteq> [] \<longrightarrow>
            process_line P (evs, str) (''data: '' @ d) = (evs @ [parsed], str @ c))
       \<and> ((field parsed ''content'' = None \<or> field parsed ''content'' = Some (JStr []))
            \<and> field parsed ''text'' = Some (JStr t) \<longrightarrow>
            process_line P (evs, str) (''data: '' @ d) = (evs @ [parsed], str @ t))
       \<and> (\<not> truthy P (field parsed ''content'') \<and> \<not> truthy P (field parsed ''text'') \<longrightarrow>
            process_line P (evs, str) (''data: '' @ d) = (evs @ [parsed], str))"
proof -
  have line: "process_line P (evs, str) (''data: '' @ d) =
      (case note_event P parsed of
         Inl e \<Rightarrow> (evs @ [parsed] @ [text_event d], str @ d)
       | Inr s \<Rightarrow> (evs @ [parsed], str @ s))"
    using assms(1,2) by (simp add: process_line_def)
  have ne: "note_event P parsed =
      ToString P (js_or P (field parsed ''content'') (js_or P (field parsed ''text'') (Some (JStr []))))"
    using assms(3,4) by (auto simp: note_event_def)
  have 1: "field parsed ''content'' = Some (JStr c) \<and> c \<noteq> [] \<longrightarrow>
            process_line P (evs, str) (''data: '' @ d) = (evs @ [parsed], str @ c)"
    unfolding line ne by (simp add: js_or_def ToString_def)
  have 2: "(field parsed ''content'' = None \<or> field parsed ''content'' = Some (JStr []))
            \<and> field parsed ''text'' = Some (JStr t) \<longrightarrow>
            process_line P (evs, str) (''data: '' @ d) = (evs @ [parsed], str @ t)"
    unfolding line ne by (auto simp: js_or_def ToString_def)
  have 3: "\<not> truthy P (field parsed ''content'') \<and> \<not> truthy P (field parsed ''text'') \<longrightarrow>
            process_line P (evs, str) (''data: '' @ d) = (evs @ [parsed], str)"
    unfolding line ne by (simp add: js_or_def ToString_def)
  from 1 2 3 show ?thesis by blast
qed

theorem delta_text_appended_witness:
  "process_line ascii_platform ([], ''Hi'') ''data: {\"type\":\"delta\",\"content\":\"\",\"text\":\" yo\"}''
     = ([JObj [(''type'', JStr ''delta''), (''content'', JStr []), (''text'', JStr '' yo'')]], ''Hi yo'')"
proof -
  have p: "JSON_parse ascii_platform ''{\"type\":\"delta\",\"content\":\"\",\"text\":\" yo\"}''
     = Inr (JObj [(''type'', JStr ''delta''), (''content'', JStr []), (''text'', JStr '' yo'')])"
    unfolding ascii_platform_def platform.simps by code_simp
  have n: "''{\"type\":\"delta\",\"content\":\"\",\"text\":\" yo\"}'' \<noteq> ''[DONE]''"
    by simp
  have t: "get_prop (JObj [(''type'', JStr ''delta''), (''content'', JStr []), (''text'', JStr '' yo'')] :: string json) ''type''
             = Inr (Some (JStr ''delta''))"
    by simp
  have k: "''delta'' = ''chunk'' \<or> ''delta'' = ''delta''"
    by simp
  from delta_text_appended [OF p n t k, where t = "'' yo''" and evs = "[]" and str = "''Hi''"]
  show ?thesis
    by (simp add: field_def)
qed

lemma parse_true:
  "JSON_parse ascii_platform ''{\"type\":\"delta\",\"content\":true}''
     = Inr (JObj [(''type'', JStr ''delta''), (''content'', JBool True)])"
  unfolding ascii_platform_def platform.simps by code_simp

text \<open>
  C10 as stated fails where \<open>content\<close> is not a string and is truthy: for the event
  \<open>{"type":"delta","content":true}\<close> neither \<open>content\<close> nor \<open>text\<close> is a non-empty
  string, and \<open>true\<close> is appended to the text.
\<close>

theorem delta_true_appended:
  "handleSSEStream ascii_platform (reader_of [''data: {\"type\":\"delta\",\"content\":true}\<newline>''])
     = Some (Inr (StreamText ''true'' [JObj [(''type'', JStr ''delta''), (''content'', JBool True)]] 1))"
proof -
  have l: "process_line ascii_platform ([], []) ''data: {\"type\":\"delta\",\"content\":true}''
             = ([JObj [(''type'', JStr ''delta''), (''content'', JBool True)]], ''true'')"
    by (simp add: process_line_def parse_true note_event_def field_def js_or_def ToString_def)
  show ?thesis
    by (simp add: handleSSEStream_reader_of on_chunk_def sse_init_def l stream_result_def
        del: decode.simps)
qed

end
